theory Spec2Isabelle
  imports Complex_Main "HOL-Library.Sublist" "HOL-Library.Multiset"
begin

section \<open>JavaScript strings\<close>

text \<open>
  A JavaScript string is a sequence of UTF-16 code units. The model uses Isabelle strings:
  one \<^typ>\<open>char\<close> is one code unit, with the values 0 to 255 read as the code points of
  Latin-1. Strings with code units above 255 are outside the model. \<open>length\<close> is the
  \<open>.length\<close> of the source.
\<close>

definition code :: "char \<Rightarrow> nat" where
  "code c = of_char c"

definition isWhiteSpace :: "char \<Rightarrow> bool" where
  \<comment> \<open>the class \<open>\s\<close> of a regular expression and the characters \<open>trim\<close> removes: tab, line
      feed, vertical tab, form feed, carriage return, space and no-break space\<close>
  "isWhiteSpace c = (code c \<in> {9, 10, 11, 12, 13, 32, 160})"

definition isDigit :: "char \<Rightarrow> bool" where
  \<comment> \<open>\<open>\d\<close>, that is \<open>[0-9]\<close>\<close>
  "isDigit c = (48 \<le> code c \<and> code c \<le> 57)"

definition isUpper :: "char \<Rightarrow> bool" where
  \<comment> \<open>\<open>[A-Z]\<close>\<close>
  "isUpper c = (65 \<le> code c \<and> code c \<le> 90)"

definition isLower :: "char \<Rightarrow> bool" where
  \<comment> \<open>\<open>[a-z]\<close>\<close>
  "isLower c = (97 \<le> code c \<and> code c \<le> 122)"

definition isAlnum :: "char \<Rightarrow> bool" where
  \<comment> \<open>\<open>[a-zA-Z0-9]\<close>\<close>
  "isAlnum c = (isLower c \<or> isUpper c \<or> isDigit c)"

definition isWordChar :: "char \<Rightarrow> bool" where
  \<comment> \<open>\<open>\w\<close>, that is \<open>[A-Za-z0-9_]\<close>\<close>
  "isWordChar c = (isAlnum c \<or> c = CHR ''_'')"

definition toLowerCaseChar :: "char \<Rightarrow> char" where
  \<comment> \<open>\<open>A\<close> to \<open>Z\<close> and the capital letters of Latin-1 (0xC0 to 0xDE without the
      multiplication sign 0xD7) move 32 places up; every other character stays\<close>
  "toLowerCaseChar c =
     (if isUpper c \<or> (192 \<le> code c \<and> code c \<le> 222 \<and> code c \<noteq> 215)
      then char_of (code c + 32) else c)"

definition toLowerCase :: "string \<Rightarrow> string" where
  "toLowerCase s = map toLowerCaseChar s"

definition trim :: "string \<Rightarrow> string" where
  "trim s = rev (dropWhile isWhiteSpace (rev (dropWhile isWhiteSpace s)))"

definition truthy :: "string \<Rightarrow> bool" where
  \<comment> \<open>a string in a condition: the empty string is the only falsy one\<close>
  "truthy s = (s \<noteq> [])"

fun startsWith :: "string \<Rightarrow> string \<Rightarrow> bool" where
  "startsWith s [] = True"
| "startsWith [] (p # ps) = False"
| "startsWith (c # cs) (p # ps) = (c = p \<and> startsWith cs ps)"

fun includesStr :: "string \<Rightarrow> string \<Rightarrow> bool" where
  \<comment> \<open>\<open>s.includes(p)\<close>\<close>
  "includesStr [] p = (p = [])"
| "includesStr (c # cs) p = (startsWith (c # cs) p \<or> includesStr cs p)"

fun splitOn :: "char \<Rightarrow> string \<Rightarrow> string list" where
  \<comment> \<open>\<open>s.split(sep)\<close> for a separator of one character: never the empty list\<close>
  "splitOn sep [] = [[]]"
| "splitOn sep (c # cs) =
     (if c = sep then [] # splitOn sep cs
      else (case splitOn sep cs of [] \<Rightarrow> [[c]] | p # ps \<Rightarrow> (c # p) # ps))"

fun joinWith :: "string \<Rightarrow> string list \<Rightarrow> string" where
  \<comment> \<open>\<open>parts.join(sep)\<close>\<close>
  "joinWith sep [] = []"
| "joinWith sep [p] = p"
| "joinWith sep (p # q # ps) = p @ sep @ joinWith sep (q # ps)"

section \<open>Key normalisation\<close>

text \<open>
  \<^verbatim>\<open>
  static normalizeKey(key) {
    return key.toLowerCase().trim().replace(/[^\w\s]/g, '').replace(/\s+/g, '_');
  }
  \<close>
\<close>

definition stripNonWord :: "string \<Rightarrow> string" where
  \<comment> \<open>\<open>.replace(/[^\w\s]/g, '')\<close>\<close>
  "stripNonWord s = filter (\<lambda>c. isWordChar c \<or> isWhiteSpace c) s"

function collapseWhitespace :: "string \<Rightarrow> string" where
  \<comment> \<open>\<open>.replace(/\s+/g, '_')\<close>: every maximal run of whitespace becomes one underscore\<close>
  "collapseWhitespace [] = []"
| "collapseWhitespace (c # cs) =
     (if isWhiteSpace c then CHR ''_'' # collapseWhitespace (dropWhile isWhiteSpace cs)
      else c # collapseWhitespace cs)"
  by pat_completeness auto
termination
  by (relation "measure length") (auto simp: length_dropWhile_le less_Suc_eq_le)

definition normalizeKey :: "string \<Rightarrow> string" where
  "normalizeKey key = collapseWhitespace (stripNonWord (trim (toLowerCase key)))"

section \<open>JavaScript values and errors\<close>

text \<open>
  A number is NaN, an infinity or a finite value; \<open>+0\<close> and \<open>-0\<close> are one value here, as
  they are for \<open>===\<close> and for a \<open>Set\<close>. A date, an array or an object is known by its
  identity (an address): two of them are equal only if they are the same object. Their
  contents play no part in the code modelled here.
\<close>

datatype jsnumber = NaN | PosInfinity | NegInfinity | Finite rat

datatype jsval =
    JUndefined
  | JNull
  | JBoolean bool
  | JNumber jsnumber
  | JString string
  | JDate nat
  | JArray nat
  | JObject nat

definition strictEquals :: "jsval \<Rightarrow> jsval \<Rightarrow> bool" where
  \<comment> \<open>\<open>a === b\<close>: NaN is not equal to itself\<close>
  "strictEquals a b = (a = b \<and> a \<noteq> JNumber NaN)"

definition newSet :: "'a list \<Rightarrow> 'a list" where
  \<comment> \<open>\<open>[...new Set(xs)]\<close>: the elements in the order of their first occurrence. A \<open>Set\<close>
      compares with SameValueZero, for which NaN equals NaN: equality of the model.\<close>
  "newSet xs = foldl (\<lambda>s x. if x \<in> set s then s else s @ [x]) [] xs"

record jsError =
  message :: string
  processingStep :: "string option"

definition newError :: "string \<Rightarrow> jsError" where
  \<comment> \<open>\<open>new Error(msg)\<close>\<close>
  "newError msg = \<lparr>message = msg, processingStep = None\<rparr>"

section \<open>The key-value index\<close>

type_synonym objectId = nat
type_synonym date = int  \<comment> \<open>milliseconds since the epoch\<close>

record kvPair =
  key :: string
  val :: jsval  \<comment> \<open>the field \<open>value\<close> of the source\<close>

record indexEntry =
  documentId :: objectId
  filename :: string
  originalFilename :: string
  entryKey :: string  \<comment> \<open>the field \<open>key\<close>\<close>
  keyNormalized :: string
  entryValue :: jsval  \<comment> \<open>the field \<open>value\<close>\<close>
  valueType :: string
  extractedAt :: date

text \<open>
  \<^verbatim>\<open>
  static getValueType(value) {
    if (typeof value === 'string') return 'string';
    if (typeof value === 'number') return 'number';
    if (typeof value === 'boolean') return 'boolean';
    if (value instanceof Date) return 'date';
    if (Array.isArray(value)) return 'array';
    if (typeof value === 'object') return 'object';
    return 'string';
  }
  \<close>
  \<open>typeof null\<close> is \<open>'object'\<close>.
\<close>

fun getValueType :: "jsval \<Rightarrow> string" where
  "getValueType (JString s) = ''string''"
| "getValueType (JNumber n) = ''number''"
| "getValueType (JBoolean b) = ''boolean''"
| "getValueType (JDate a) = ''date''"
| "getValueType (JArray a) = ''array''"
| "getValueType (JObject a) = ''object''"
| "getValueType JNull = ''object''"
| "getValueType JUndefined = ''string''"

subsection \<open>Plain objects used as dictionaries\<close>

text \<open>
  An object is the list of its own properties in the order of their creation, with distinct
  keys. \<open>obj[k] = v\<close> overwrites the property \<open>k\<close> where it stands or appends it. On an
  object created by \<open>{}\<close> the key \<open>__proto__\<close> is the accessor of \<open>Object.prototype\<close>:
  assigning to it creates no own property. \<open>Object.entries\<close> lists the array indices
  (canonical decimal numerals below \<open>2^32 - 1\<close>) in ascending order, then the other keys in
  the order of their creation.
\<close>

type_synonym jsobject = "(string \<times> jsval) list"

fun assign :: "jsobject \<Rightarrow> string \<Rightarrow> jsval \<Rightarrow> jsobject" where
  "assign [] k v = [(k, v)]"
| "assign ((k', v') # rest) k v =
     (if k' = k then (k, v) # rest else (k', v') # assign rest k v)"

definition setProp :: "jsobject \<Rightarrow> string \<Rightarrow> jsval \<Rightarrow> jsobject" where
  "setProp obj k v = (if k = ''__proto__'' then obj else assign obj k v)"

definition numericValue :: "string \<Rightarrow> nat" where
  "numericValue s = foldl (\<lambda>a c. 10 * a + (code c - 48)) 0 s"

definition isArrayIndex :: "string \<Rightarrow> bool" where
  "isArrayIndex s =
     (s \<noteq> [] \<and> list_all isDigit s \<and> (length s = 1 \<or> hd s \<noteq> CHR ''0'')
      \<and> numericValue s < 4294967295)"

definition objectEntries :: "jsobject \<Rightarrow> (string \<times> jsval) list" where
  "objectEntries obj =
     sort_key (\<lambda>(k, v). numericValue k) (filter (\<lambda>(k, v). isArrayIndex k) obj)
     @ filter (\<lambda>(k, v). \<not> isArrayIndex k) obj"

subsection \<open>The collection\<close>

text \<open>
  The collection \<open>KeyValueIndex\<close> is the list of its entries in the order of insertion. Its
  schema requires \<open>filename\<close>, \<open>originalFilename\<close>, \<open>key\<close>, \<open>keyNormalized\<close> (strings: the
  empty string fails the check) and \<open>value\<close> (of any type: \<open>null\<close> and \<open>undefined\<close> fail),
  and restricts \<open>valueType\<close> to six names. \<open>insertMany\<close> validates every entry first and
  inserts none if one fails. Failures of the connection are outside the model.

  Two behaviours of the library are parameters. \<open>storedValue\<close> is the form in which a
  value of the mixed type is written: the library copies the value and, under the default
  option \<open>minimize\<close> of a schema, leaves out an object without properties, so that such an
  entry is stored without a value (\<open>JUndefined\<close>). \<open>validationError\<close> is the error
  that is thrown for entries that fail the validation.
\<close>

record mongoose =
  storedValue :: "jsval \<Rightarrow> jsval"
  validationError :: "indexEntry list \<Rightarrow> jsError"

type_synonym collection = "indexEntry list"

definition validEntry :: "indexEntry \<Rightarrow> bool" where
  "validEntry e =
     (filename e \<noteq> [] \<and> originalFilename e \<noteq> [] \<and> entryKey e \<noteq> []
      \<and> keyNormalized e \<noteq> [] \<and> entryValue e \<noteq> JNull \<and> entryValue e \<noteq> JUndefined
      \<and> valueType e \<in> set [''string'', ''number'', ''boolean'', ''date'', ''array'', ''object''])"

definition insertMany ::
  "mongoose \<Rightarrow> indexEntry list \<Rightarrow> collection \<Rightarrow> jsError + collection" where
  "insertMany m es db =
     (if list_all validEntry es
      then Inr (db @ map (\<lambda>e. e\<lparr>entryValue := storedValue m (entryValue e)\<rparr>) es)
      else Inl (validationError m es))"

definition deleteMany :: "objectId \<Rightarrow> collection \<Rightarrow> nat \<times> collection" where
  \<comment> \<open>\<open>deleteMany({ documentId })\<close>: the number of entries deleted and the collection left\<close>
  "deleteMany docId db =
     (length (filter (\<lambda>e. documentId e = docId) db),
      filter (\<lambda>e. documentId e \<noteq> docId) db)"

definition sortNewestFirst :: "indexEntry list \<Rightarrow> indexEntry list" where
  \<comment> \<open>\<open>.sort({ extractedAt: -1 })\<close>; entries of the same date keep their order of insertion
      here (the database promises no order among them)\<close>
  "sortNewestFirst es = sort_key (\<lambda>e. - extractedAt e) es"

definition applyLimit :: "int \<Rightarrow> 'a list \<Rightarrow> 'a list" where
  \<comment> \<open>\<open>.limit(n)\<close>: 0 means no limit, a negative limit counts as its absolute value\<close>
  "applyLimit n xs = (if n = 0 then xs else take (nat \<bar>n\<bar>) xs)"

definition find :: "(indexEntry \<Rightarrow> bool) \<Rightarrow> int \<Rightarrow> collection \<Rightarrow> indexEntry list" where
  \<comment> \<open>\<open>find(query).sort({ extractedAt: -1 }).limit(limit).lean()\<close>\<close>
  "find query limit db = applyLimit limit (sortNewestFirst (filter query db))"

subsection \<open>Indexing\<close>

text \<open>
  \<^verbatim>\<open>
  static async indexKeyValuePairs(documentId, filename, originalFilename, keyValuePairs,
                                  extractedAt = new Date()) {
    try {
      const indexEntries = [];
      let pairs;
      if (Array.isArray(keyValuePairs)) {
        pairs = {};
        keyValuePairs.forEach(pair => {
          if (pair.key && pair.value !== null && pair.value !== undefined && pair.value !== '') {
            pairs[pair.key] = pair.value;
          }
        });
      } else if (typeof keyValuePairs === 'object' && keyValuePairs !== null) {
        pairs = keyValuePairs;
      } else {
        throw new Error('keyValuePairs must be an array or object');
      }
      for (const [key, value] of Object.entries(pairs)) {
        if (value === null || value === undefined || value === '') continue;
        indexEntries.push({ documentId, filename, originalFilename, key,
          keyNormalized: this.normalizeKey(key), value,
          valueType: this.getValueType(value), extractedAt });
      }
      if (indexEntries.length > 0) {
        await KeyValueIndex.insertMany(indexEntries);
      }
      return indexEntries.length;
    } catch (error) { throw error; }
  }
  \<close>
\<close>

datatype kvInput =
    KVArray "kvPair list"
  | KVObject jsobject
  | KVOther

definition isEmptyValue :: "jsval \<Rightarrow> bool" where
  \<comment> \<open>\<open>value === null || value === undefined || value === ''\<close>\<close>
  "isEmptyValue v = (v = JNull \<or> v = JUndefined \<or> v = JString [])"

definition arrayToObject :: "kvPair list \<Rightarrow> jsobject" where
  "arrayToObject keyValuePairs =
     foldl (\<lambda>pairs pair.
              if truthy (key pair) \<and> val pair \<noteq> JNull \<and> val pair \<noteq> JUndefined
                 \<and> val pair \<noteq> JString []
              then setProp pairs (key pair) (val pair) else pairs)
       [] keyValuePairs"

definition buildIndexEntries ::
  "objectId \<Rightarrow> string \<Rightarrow> string \<Rightarrow> jsobject \<Rightarrow> date \<Rightarrow> indexEntry list" where
  "buildIndexEntries docId fname origName pairs atDate =
     map (\<lambda>(k, v). \<lparr>documentId = docId, filename = fname, originalFilename = origName,
                     entryKey = k, keyNormalized = normalizeKey k, entryValue = v,
                     valueType = getValueType v, extractedAt = atDate\<rparr>)
       (filter (\<lambda>(k, v). \<not> isEmptyValue v) (objectEntries pairs))"

definition indexKeyValuePairs ::
  "mongoose \<Rightarrow> objectId \<Rightarrow> string \<Rightarrow> string \<Rightarrow> kvInput \<Rightarrow> date \<Rightarrow> collection
   \<Rightarrow> jsError + (nat \<times> collection)" where
  "indexKeyValuePairs m docId fname origName keyValuePairs atDate db =
     (case (case keyValuePairs of
              KVArray ps \<Rightarrow> Inr (arrayToObject ps)
            | KVObject obj \<Rightarrow> Inr obj
            | KVOther \<Rightarrow> Inl (newError ''keyValuePairs must be an array or object''))
      of Inl e \<Rightarrow> Inl e
       | Inr pairs \<Rightarrow>
           let indexEntries = buildIndexEntries docId fname origName pairs atDate
           in if length indexEntries > 0
              then (case insertMany m indexEntries db of
                      Inl e \<Rightarrow> Inl e
                    | Inr db' \<Rightarrow> Inr (length indexEntries, db'))
              else Inr (length indexEntries, db))"

text \<open>
  \<^verbatim>\<open>
  static async removeDocumentIndex(documentId) {
    const result = await KeyValueIndex.deleteMany({ documentId });
    return result.deletedCount;
  }
  \<close>
\<close>

definition removeDocumentIndex :: "objectId \<Rightarrow> collection \<Rightarrow> nat \<times> collection" where
  "removeDocumentIndex docId db = deleteMany docId db"

definition indexable :: "kvPair \<Rightarrow> bool" where
  \<comment> \<open>the pairs of an array that reach the dictionary: the key is not empty and not
      \<open>__proto__\<close>, the value is not empty\<close>
  "indexable p = (key p \<noteq> [] \<and> key p \<noteq> ''__proto__'' \<and> \<not> isEmptyValue (val p))"

subsection \<open>Exact key search\<close>

text \<open>
  \<^verbatim>\<open>
  static async searchByKeyExact(keyName, limit = 100) {
    const results = await KeyValueIndex.find({ key: keyName })
      .sort({ extractedAt: -1 }).limit(limit).lean();
    const uniqueValues = [...new Set(results.map(r => r.value))];
    const valueFrequency = uniqueValues.map(value => {
      const matchingResults = results.filter(r => r.value === value);
      return {
        value,
        count: matchingResults.length,
        filenames: [...new Set(matchingResults.map(r => r.originalFilename))]
      };
    });
    return {
      searchKey: keyName, searchType: 'exact', results, uniqueValues,
      totalDocuments: new Set(results.map(r => r.documentId.toString())).size,
      totalResults: results.length,
      valueFrequency
    };
  }
  \<close>
\<close>

record frequencyItem =
  freqValue :: jsval  \<comment> \<open>the field \<open>value\<close>\<close>
  count :: nat
  filenames :: "string list"

record exactResult =
  searchKey :: string
  searchType :: string
  results :: "indexEntry list"
  uniqueValues :: "jsval list"
  totalDocuments :: nat
  totalResults :: nat
  valueFrequency :: "frequencyItem list"

definition frequencyOf :: "indexEntry list \<Rightarrow> jsval \<Rightarrow> frequencyItem" where
  "frequencyOf rs v =
     (let matchingResults = filter (\<lambda>r. strictEquals (entryValue r) v) rs
      in \<lparr>freqValue = v, count = length matchingResults,
          filenames = newSet (map originalFilename matchingResults)\<rparr>)"

definition searchByKeyExact :: "string \<Rightarrow> int \<Rightarrow> collection \<Rightarrow> exactResult" where
  "searchByKeyExact keyName limit db =
     (let rs = find (\<lambda>e. entryKey e = keyName) limit db;
          uniq = newSet (map entryValue rs)
      in \<lparr>searchKey = keyName, searchType = ''exact'', results = rs, uniqueValues = uniq,
          totalDocuments = length (newSet (map documentId rs)),
          totalResults = length rs,
          valueFrequency = map (frequencyOf rs) uniq\<rparr>)"

subsection \<open>Partial key search\<close>

text \<open>
  \<^verbatim>\<open>
  static async searchByKeyPartial(keyName, limit = 100) {
    const normalizedSearch = this.normalizeKey(keyName);
    const results = await KeyValueIndex.find({
      keyNormalized: { $regex: normalizedSearch, $options: 'i' }
    }).sort({ extractedAt: -1 }).limit(limit).lean();
    const documentGroups = {};
    results.forEach(result => {
      const docId = result.documentId.toString();
      if (!documentGroups[docId]) {
        documentGroups[docId] = { documentId: result.documentId, filename: result.filename,
          originalFilename: result.originalFilename, extractedAt: result.extractedAt,
          matches: [] };
      }
      documentGroups[docId].matches.push({ key: result.key, value: result.value,
                                           valueType: result.valueType });
    });
    const groupedResults = Object.values(documentGroups);
    return { searchKey: keyName, searchType: 'partial', results: groupedResults,
             totalDocuments: groupedResults.length, totalMatches: results.length };
  }
  \<close>
  A normalised key has only the characters \<open>a\<close> to \<open>z\<close>, \<open>0\<close> to \<open>9\<close> and \<open>_\<close>
  (lemma \<open>normalizeKey_chars\<close>), so as a regular expression it matches itself, and with the
  option \<open>i\<close> it matches wherever it occurs in the lower-cased subject. The identifier of a
  document prints as 24 hexadecimal digits, which is never an array index nor
  \<open>__proto__\<close>: the groups come out in the order of their creation.
\<close>

record matchItem =
  matchKey :: string  \<comment> \<open>the field \<open>key\<close>\<close>
  matchValue :: jsval  \<comment> \<open>the field \<open>value\<close>\<close>
  matchValueType :: string  \<comment> \<open>the field \<open>valueType\<close>\<close>

record documentGroup =
  groupDocumentId :: objectId  \<comment> \<open>the field \<open>documentId\<close>\<close>
  groupFilename :: string
  groupOriginalFilename :: string
  groupExtractedAt :: date
  matches :: "matchItem list"

record partialResult =
  partialSearchKey :: string
  partialSearchType :: string
  groupedResults :: "documentGroup list"  \<comment> \<open>the field \<open>results\<close>\<close>
  partialTotalDocuments :: nat
  totalMatches :: nat

definition regexTestI :: "string \<Rightarrow> string \<Rightarrow> bool" where
  \<comment> \<open>\<open>{ $regex: pattern, $options: 'i' }\<close> for a pattern without special characters\<close>
  "regexTestI pattern subject = includesStr (toLowerCase subject) (toLowerCase pattern)"

definition matchOf :: "indexEntry \<Rightarrow> matchItem" where
  "matchOf r = \<lparr>matchKey = entryKey r, matchValue = entryValue r, matchValueType = valueType r\<rparr>"

fun addToGroups :: "documentGroup list \<Rightarrow> indexEntry \<Rightarrow> documentGroup list" where
  "addToGroups [] r =
     [\<lparr>groupDocumentId = documentId r, groupFilename = filename r,
       groupOriginalFilename = originalFilename r, groupExtractedAt = extractedAt r,
       matches = [matchOf r]\<rparr>]"
| "addToGroups (g # gs) r =
     (if groupDocumentId g = documentId r then g\<lparr>matches := matches g @ [matchOf r]\<rparr> # gs
      else g # addToGroups gs r)"

definition searchByKeyPartial :: "string \<Rightarrow> int \<Rightarrow> collection \<Rightarrow> partialResult" where
  "searchByKeyPartial keyName limit db =
     (let normalizedSearch = normalizeKey keyName;
          rs = find (\<lambda>e. regexTestI normalizedSearch (keyNormalized e)) limit db;
          groups = foldl addToGroups [] rs
      in \<lparr>partialSearchKey = keyName, partialSearchType = ''partial'', groupedResults = groups,
          partialTotalDocuments = length groups, totalMatches = length rs\<rparr>)"

subsection \<open>Examples\<close>

text \<open>
  An instance of the library for the examples, whose values are strings, booleans and
  numbers: such a value is stored as it is.
\<close>

definition exampleMongoose :: mongoose where
  "exampleMongoose =
     \<lparr>storedValue = (\<lambda>v. v),
      validationError = (\<lambda>es. newError ''KeyValueIndex validation failed'')\<rparr>"

definition totalEntry :: "objectId \<Rightarrow> date \<Rightarrow> jsval \<Rightarrow> indexEntry" where
  \<comment> \<open>an entry with the key \<open>Total\<close>\<close>
  "totalEntry docId atDate v =
     \<lparr>documentId = docId, filename = ''doc.pdf'', originalFilename = ''invoice.pdf'',
      entryKey = ''Total'', keyNormalized = ''total'', entryValue = v,
      valueType = getValueType v, extractedAt = atDate\<rparr>"

definition mixedIndex :: collection where
  \<comment> \<open>values of several types; the string \<open>10\<close> occurs twice, the two objects are distinct\<close>
  "mixedIndex =
     [totalEntry 1 600 (JString ''10''), totalEntry 2 500 (JNumber (Finite 10)),
      totalEntry 3 400 (JObject 1), totalEntry 4 300 (JString ''10''),
      totalEntry 5 200 (JObject 2), totalEntry 6 100 (JBoolean True)]"

definition exampleIndex :: collection where
  "exampleIndex =
     [\<lparr>documentId = 1, filename = ''doc-1.pdf'', originalFilename = ''first.pdf'',
       entryKey = ''Email'', keyNormalized = ''email'', entryValue = JString ''ann@example.com'',
       valueType = ''string'', extractedAt = 100\<rparr>,
      \<lparr>documentId = 2, filename = ''doc-2.pdf'', originalFilename = ''second.pdf'',
       entryKey = ''Email'', keyNormalized = ''email'', entryValue = JString ''bob@example.com'',
       valueType = ''string'', extractedAt = 200\<rparr>,
      \<lparr>documentId = 1, filename = ''doc-1.pdf'', originalFilename = ''first.pdf'',
       entryKey = ''Work Email'', keyNormalized = ''work_email'',
       entryValue = JString ''ann@work.example'', valueType = ''string'', extractedAt = 100\<rparr>]"

section \<open>Text extraction from a PDF file\<close>

text \<open>
  The file system is a map from paths to contents; a content is a list of bytes, one
  \<^typ>\<open>char\<close> each. \<open>dataBuffer.slice(0, 4).toString()\<close> decodes the first four bytes as
  UTF-8: it is the string \<open>%PDF\<close> exactly when the bytes are the four ASCII codes of
  \<open>%PDF\<close>, since a byte above 127 never decodes to an ASCII character. The parser
  \<open>pdf-parse\<close> is a parameter: it returns the parsed data or throws. Reading a path
  that the file system does not have throws; other failures of reading are outside the
  model.
\<close>

type_synonym buffer = "char list"
type_synonym fileSystem = "string \<rightharpoonup> buffer"

record pdfData =
  numpages :: nat
  pdfText :: string  \<comment> \<open>the field \<open>text\<close>\<close>

definition readFileSync :: "fileSystem \<Rightarrow> string \<Rightarrow> jsError + buffer" where
  "readFileSync fs filePath =
     (case fs filePath of
        None \<Rightarrow>
          Inl (newError (''ENOENT: no such file or directory, open '' @ [CHR 0x27] @ filePath
                         @ [CHR 0x27]))
      | Some dataBuffer \<Rightarrow> Inr dataBuffer)"

text \<open>
  \<^verbatim>\<open>
  async extractFromScannedPDF(filePath) {
    const error = new Error([
      'This PDF appears to contain scanned images or forms that require OCR processing.',
      'Current options:',
      '1. Convert the PDF to JPG/PNG format and upload the image instead',
      '2. Use a PDF with selectable text content',
      '3. For automatic PDF processing, install ImageMagick or GraphicsMagick on your system',
      '',
      'To install ImageMagick on macOS: brew install imagemagick',
      'Then restart the server to enable PDF image conversion.'
    ].join('\\n'));
    error.processingStep = 'PDF_IMAGE_CONVERSION_UNAVAILABLE';
    throw error;
  }
  \<close>
  The separator \<open>'\\n'\<close> is a backslash followed by the letter \<open>n\<close>.
\<close>

definition scannedPdfMessage :: string where
  "scannedPdfMessage =
     joinWith [CHR 0x5C, CHR ''n'']
       [''This PDF appears to contain scanned images or forms that require OCR processing.'',
        ''Current options:'',
        ''1. Convert the PDF to JPG/PNG format and upload the image instead'',
        ''2. Use a PDF with selectable text content'',
        ''3. For automatic PDF processing, install ImageMagick or GraphicsMagick on your system'',
        [],
        ''To install ImageMagick on macOS: brew install imagemagick'',
        ''Then restart the server to enable PDF image conversion.'']"

definition extractFromScannedPDF :: "string \<Rightarrow> jsError + string" where
  "extractFromScannedPDF filePath =
     Inl ((newError scannedPdfMessage)\<lparr>processingStep := Some ''PDF_IMAGE_CONVERSION_UNAVAILABLE''\<rparr>)"

text \<open>
  \<^verbatim>\<open>
      const cleanText = data.text.trim();
      if (cleanText.length > 20) {
        const meaningfulChars = cleanText.replace(/[\\s\\n\\r\\t]/g, '').length;
        const alphanumericChars = (cleanText.match(/[a-zA-Z0-9]/g) || []).length;
        if (alphanumericChars / meaningfulChars > 0.3) {
          return cleanText;
        }
      }
  \<close>
  In the regular expression literal \<open>/[\\s\\n\\r\\t]/g\<close> every \<open>\\\<close> is an escaped
  backslash: the class holds the backslash and the letters \<open>s\<close>, \<open>n\<close>, \<open>r\<close>, \<open>t\<close>, and no
  whitespace.

  The quotient is a floating-point number. Both counts are lengths of strings, below
  \<open>2^53\<close>, so they are exact; for a divisor 0 the quotient is \<open>Infinity\<close> (which exceeds
  0.3) when the dividend is positive and \<open>NaN\<close> (which exceeds nothing) when it is 0. For
  a positive divisor the quotient is rounded to the nearest double, as the literal 0.3
  is: the rounded quotient exceeds the rounded 0.3 exactly when the exact quotient exceeds
  three tenths, since two distinct quotients of such counts differ by far more than the
  spacing of doubles. The model compares the exact quotient.
\<close>

definition meaningfulChars :: "string \<Rightarrow> nat" where
  "meaningfulChars cleanText =
     length (filter (\<lambda>c. c \<notin> set [CHR 0x5C, CHR ''s'', CHR ''n'', CHR ''r'', CHR ''t'']) cleanText)"

definition alphanumericChars :: "string \<Rightarrow> nat" where
  "alphanumericChars cleanText = length (filter isAlnum cleanText)"

definition quotientAbove :: "nat \<Rightarrow> nat \<Rightarrow> bool" where
  \<comment> \<open>\<open>a / m > 0.3\<close>\<close>
  "quotientAbove a m =
     (if m = 0 then a > 0 else (of_nat a / of_nat m :: rat) > 3 / 10)"

definition hasReadableText :: "string \<Rightarrow> bool" where
  \<comment> \<open>the two nested conditions under which \<open>cleanText\<close> is returned\<close>
  "hasReadableText cleanText =
     (if length cleanText > 20
      then quotientAbove (alphanumericChars cleanText) (meaningfulChars cleanText)
      else False)"

text \<open>
  \<^verbatim>\<open>
  async extractFromPDF(filePath) {
    try {
      const dataBuffer = fs.readFileSync(filePath);
      const fileHeader = dataBuffer.slice(0, 4).toString();
      if (fileHeader !== '%PDF') {
        throw new Error('File does not appear to be a valid PDF');
      }
      const data = await pdfParse(dataBuffer);
      ...
      return await this.extractFromScannedPDF(filePath);
    } catch (error) {
      if (error.processingStep === 'PDF_IMAGE_CONVERSION_UNAVAILABLE') {
        throw error;
      }
      error.processingStep = 'PDF_TEXT_EXTRACTION';
      try {
        return await this.extractFromScannedPDF(filePath);
      } catch (ocrError) {
        if (ocrError.processingStep === 'PDF_IMAGE_CONVERSION_UNAVAILABLE') {
          throw ocrError;
        }
        ocrError.processingStep = 'PDF_OCR_FALLBACK';
        const combinedError = new Error(
          `PDF processing failed: ${error.message}. ${ocrError.message}`);
        combinedError.processingStep = 'PDF_COMPLETE_FAILURE';
        throw combinedError;
      }
    }
  }
  \<close>
\<close>

definition parsePDF ::
  "(buffer \<Rightarrow> jsError + pdfData) \<Rightarrow> fileSystem \<Rightarrow> string \<Rightarrow> jsError + string" where
  \<comment> \<open>the body of the outer \<open>try\<close>\<close>
  "parsePDF pdfParse fs filePath =
     (case readFileSync fs filePath of
        Inl e \<Rightarrow> Inl e
      | Inr dataBuffer \<Rightarrow>
          let fileHeader = take 4 dataBuffer
          in if fileHeader \<noteq> ''%PDF''
             then Inl (newError ''File does not appear to be a valid PDF'')
             else (case pdfParse dataBuffer of
                     Inl e \<Rightarrow> Inl e
                   | Inr data \<Rightarrow>
                       let cleanText = trim (pdfText data)
                       in if hasReadableText cleanText then Inr cleanText
                          else extractFromScannedPDF filePath))"

definition extractFromPDF ::
  "(buffer \<Rightarrow> jsError + pdfData) \<Rightarrow> fileSystem \<Rightarrow> string \<Rightarrow> jsError + string" where
  "extractFromPDF pdfParse fs filePath =
     (case parsePDF pdfParse fs filePath of
        Inr cleanText \<Rightarrow> Inr cleanText
      | Inl error \<Rightarrow>
          if processingStep error = Some ''PDF_IMAGE_CONVERSION_UNAVAILABLE'' then Inl error
          else
            let error' = error\<lparr>processingStep := Some ''PDF_TEXT_EXTRACTION''\<rparr>
            in (case extractFromScannedPDF filePath of
                  Inr t \<Rightarrow> Inr t
                | Inl ocrError \<Rightarrow>
                    if processingStep ocrError = Some ''PDF_IMAGE_CONVERSION_UNAVAILABLE''
                    then Inl ocrError
                    else Inl ((newError (''PDF processing failed: '' @ message error' @ ''. ''
                                         @ message ocrError))
                              \<lparr>processingStep := Some ''PDF_COMPLETE_FAILURE''\<rparr>)))"

text \<open>
  \<^verbatim>\<open>
  async extractText(filePath, mimeType) {
    try {
      if (mimeType === 'application/pdf') {
        return await this.extractFromPDF(filePath);
      } else if (mimeType === 'image/jpeg' || mimeType === 'image/jpg'
                 || mimeType === 'image/png') {
        return await this.extractFromImage(filePath);
      } else {
        const error = new Error(`Unsupported file type: ${mimeType}`);
        error.processingStep = 'FILE_TYPE_CHECK';
        throw error;
      }
    } catch (error) {
      if (!error.processingStep) {
        error.processingStep = 'UNKNOWN';
      }
      throw error;
    }
  }
  \<close>
  The recognition of images calls two external services; it is a parameter.
\<close>

definition extractText ::
  "(buffer \<Rightarrow> jsError + pdfData) \<Rightarrow> (string \<Rightarrow> jsError + string) \<Rightarrow> fileSystem
   \<Rightarrow> string \<Rightarrow> string \<Rightarrow> jsError + string" where
  "extractText pdfParse extractFromImage fs filePath mimeType =
     (case (if mimeType = ''application/pdf'' then extractFromPDF pdfParse fs filePath
            else if mimeType = ''image/jpeg'' \<or> mimeType = ''image/jpg'' \<or> mimeType = ''image/png''
            then extractFromImage filePath
            else Inl ((newError (''Unsupported file type: '' @ mimeType))
                      \<lparr>processingStep := Some ''FILE_TYPE_CHECK''\<rparr>))
      of Inr t \<Rightarrow> Inr t
       | Inl error \<Rightarrow>
           if processingStep error = None \<or> processingStep error = Some []
           then Inl (error\<lparr>processingStep := Some ''UNKNOWN''\<rparr>)
           else Inl error)"

subsection \<open>The acceptance rule in the words of the specification\<close>

text \<open>
  ``Strip whitespace, then require the ratio of alphanumeric characters to non-whitespace
  characters to exceed 0.3 and total trimmed length to exceed 20 characters.''
\<close>

definition nonWhitespaceChars :: "string \<Rightarrow> nat" where
  "nonWhitespaceChars t = length (filter (\<lambda>c. \<not> isWhiteSpace c) t)"

definition specMeaningful :: "string \<Rightarrow> bool" where
  "specMeaningful t =
     (length (trim t) > 20
      \<and> quotientAbove (alphanumericChars (trim t)) (nonWhitespaceChars (trim t)))"

subsection \<open>Example inputs\<close>

definition parsesTo :: "string \<Rightarrow> buffer \<Rightarrow> jsError + pdfData" where
  \<comment> \<open>a parser that finds the text \<open>t\<close> on one page\<close>
  "parsesTo t dataBuffer = Inr \<lparr>numpages = 1, pdfText = t\<rparr>"

definition noOcr :: "string \<Rightarrow> jsError + string" where
  "noOcr filePath = Inl (newError ''no OCR service'')"

definition oneFile :: "string \<Rightarrow> buffer \<Rightarrow> fileSystem" where
  "oneFile filePath content = [filePath \<mapsto> content]"

definition spacedText :: string where
  \<comment> \<open>two letters with twenty spaces between them\<close>
  "spacedText = ''a'' @ replicate 20 (CHR '' '') @ ''b''"

definition symbolText :: string where
  \<comment> \<open>six letters \<open>s\<close> and sixteen exclamation marks\<close>
  "symbolText = replicate 6 (CHR ''s'') @ replicate 16 (CHR ''!'')"

section \<open>The chat service\<close>

text \<open>
  \<^verbatim>\<open>
  static async processQuery(query) {
    const startTime = Date.now();
    try {
      const documents = await FormData.find()
        .select('_id originalFilename keyValuePairs extractedText confidence processingMethod createdAt')
        .sort({ createdAt: -1 }).limit(20).lean();
      if (documents.length === 0) {
        return {
          content: "You haven't uploaded any documents yet. Please upload some documents first to ask questions about them.",
          confidence: 0.9,
          type: 'no_documents'
        };
      }
      const documentData = documents.map(doc => ({
        filename: doc.originalFilename,
        keyValuePairs: doc.keyValuePairs || [],
        extractedText: doc.extractedText ? doc.extractedText.substring(0, 1000) : null,
        confidence: doc.confidence,
        processingMethod: doc.processingMethod,
        createdAt: doc.createdAt
      }));
      const aiResponse = await aiService.chatQuery(query, documentData);
      return {
        content: aiResponse,
        confidence: 0.9,
        type: 'ai_response',
        metadata: {
          documentsUsed: documents.length,
          aiProvider: aiService.getSelectedProvider(),
          processingTime: Date.now() - startTime
        }
      };
    } catch (error) {
      return {
        content: 'I encountered an error while processing your request. Please try rephrasing your question or check if your documents contain the information you\'re looking for.',
        confidence: 0.1,
        type: 'error',
        error: error.message
      };
    }
  }
  \<close>
  The collection of documents either answers with its documents or throws; the gateway
  \<open>aiService.chatQuery\<close> is a parameter that returns an answer or throws. What is thrown
  is an \<open>Error\<close> object. The two readings of the clock are parameters. A field that a
  result does not have is \<open>None\<close>. The confidences 0.9 and 0.1 are the rationals nine
  tenths and one tenth.
\<close>

record formData =
  docOriginalFilename :: string  \<comment> \<open>the field \<open>originalFilename\<close>\<close>
  docKeyValuePairs :: "kvPair list option"  \<comment> \<open>the field \<open>keyValuePairs\<close>\<close>
  docExtractedText :: "string option"  \<comment> \<open>the field \<open>extractedText\<close>\<close>
  docConfidence :: rat  \<comment> \<open>the field \<open>confidence\<close>\<close>
  docProcessingMethod :: string  \<comment> \<open>the field \<open>processingMethod\<close>\<close>
  createdAt :: date

record documentSummary =
  sumFilename :: string  \<comment> \<open>the field \<open>filename\<close>\<close>
  sumKeyValuePairs :: "kvPair list"  \<comment> \<open>the field \<open>keyValuePairs\<close>\<close>
  sumExtractedText :: "string option"  \<comment> \<open>the field \<open>extractedText\<close>; \<open>None\<close> is \<open>null\<close>\<close>
  sumConfidence :: rat
  sumProcessingMethod :: string
  sumCreatedAt :: date

record chatMetadata =
  documentsUsed :: nat
  aiProvider :: string
  processingTime :: int

record chatResult =
  content :: string
  confidence :: rat
  resultType :: string  \<comment> \<open>the field \<open>type\<close>\<close>
  metadata :: "chatMetadata option"
  error :: "string option"

definition noDocumentsMessage :: string where
  "noDocumentsMessage =
     ''You haven'' @ [CHR 0x27] @ ''t uploaded any documents yet. Please upload some documents first to ask questions about them.''"

definition errorMessage :: string where
  "errorMessage =
     ''I encountered an error while processing your request. Please try rephrasing your question or check if your documents contain the information you'' @ [CHR 0x27] @ ''re looking for.''"

definition recentDocuments :: "formData list \<Rightarrow> formData list" where
  \<comment> \<open>\<open>.sort({ createdAt: -1 }).limit(20)\<close>\<close>
  "recentDocuments docs = take 20 (sort_key (\<lambda>d. - createdAt d) docs)"

definition summarise :: "formData \<Rightarrow> documentSummary" where
  "summarise doc =
     \<lparr>sumFilename = docOriginalFilename doc,
      sumKeyValuePairs = (case docKeyValuePairs doc of None \<Rightarrow> [] | Some ps \<Rightarrow> ps),
      sumExtractedText =
        (case docExtractedText doc of
           None \<Rightarrow> None
         | Some t \<Rightarrow> if truthy t then Some (take 1000 t) else None),
      sumConfidence = docConfidence doc,
      sumProcessingMethod = docProcessingMethod doc,
      sumCreatedAt = createdAt doc\<rparr>"

definition answerQuery ::
  "(string \<Rightarrow> documentSummary list \<Rightarrow> jsError + string) \<Rightarrow> string
   \<Rightarrow> (jsError + formData list) \<Rightarrow> int \<Rightarrow> int \<Rightarrow> string \<Rightarrow> jsError + chatResult" where
  \<comment> \<open>the body of the \<open>try\<close>\<close>
  "answerQuery chatQuery selectedProvider store startTime endTime query =
     (case store of
        Inl e \<Rightarrow> Inl e
      | Inr docs \<Rightarrow>
          let documents = recentDocuments docs
          in if length documents = 0
             then Inr \<lparr>content = noDocumentsMessage, confidence = 9 / 10,
                       resultType = ''no_documents'', metadata = None, error = None\<rparr>
             else
               let documentData = map summarise documents
               in (case chatQuery query documentData of
                     Inl e \<Rightarrow> Inl e
                   | Inr aiResponse \<Rightarrow>
                       Inr \<lparr>content = aiResponse, confidence = 9 / 10,
                            resultType = ''ai_response'',
                            metadata = Some \<lparr>documentsUsed = length documents,
                                             aiProvider = selectedProvider,
                                             processingTime = endTime - startTime\<rparr>,
                            error = None\<rparr>))"

definition processQuery ::
  "(string \<Rightarrow> documentSummary list \<Rightarrow> jsError + string) \<Rightarrow> string
   \<Rightarrow> (jsError + formData list) \<Rightarrow> int \<Rightarrow> int \<Rightarrow> string \<Rightarrow> jsError + chatResult" where
  "processQuery chatQuery selectedProvider store startTime endTime query =
     (case answerQuery chatQuery selectedProvider store startTime endTime query of
        Inr result \<Rightarrow> Inr result
      | Inl err \<Rightarrow>
          Inr \<lparr>content = errorMessage, confidence = 1 / 10, resultType = ''error'',
               metadata = None, error = Some (message err)\<rparr>)"

definition failingGateway :: "string \<Rightarrow> documentSummary list \<Rightarrow> jsError + string" where
  \<comment> \<open>a gateway whose provider is down\<close>
  "failingGateway query documentData = Inl (newError ''Google API key not provided'')"

definition echoGateway :: "string \<Rightarrow> documentSummary list \<Rightarrow> jsError + string" where
  "echoGateway query documentData = Inr query"

definition exampleDocument :: formData where
  "exampleDocument =
     \<lparr>docOriginalFilename = ''form.pdf'',
      docKeyValuePairs = Some [\<lparr>key = ''Name'', val = JString ''John Doe''\<rparr>],
      docExtractedText = Some ''Name: John Doe'', docConfidence = 85 / 100,
      docProcessingMethod = ''mock'', createdAt = 1000\<rparr>"

section \<open>The mock provider\<close>

subsection \<open>Regular expressions\<close>

text \<open>
  The four regular expressions of the provider are alternatives of sequences of atoms; an
  atom is a class of characters with a least and a greatest number of repetitions
  (\<open>None\<close>: no bound). Matching is the backtracking of JavaScript: an atom first takes as
  many characters as it can and gives them back one by one while the rest of the sequence
  fails; the alternatives are tried in their order; \<open>s.match(re)\<close> without the flag
  \<open>g\<close> tries the positions of \<open>s\<close> from left to right. Each expression is one group, so
  the group 1 of a match is the whole match.
\<close>

datatype atom = Atom "char \<Rightarrow> bool" nat "nat option"

fun minCount :: "atom \<Rightarrow> nat" where
  "minCount (Atom cls lo hi) = lo"

definition maxRun :: "(char \<Rightarrow> bool) \<Rightarrow> nat option \<Rightarrow> string \<Rightarrow> nat" where
  \<comment> \<open>how many characters the atom can take at the start of \<open>s\<close>\<close>
  "maxRun cls hi s =
     (let n = length (takeWhile cls s) in case hi of None \<Rightarrow> n | Some h \<Rightarrow> min h n)"

primrec tryCounts :: "(string \<Rightarrow> nat option) \<Rightarrow> nat \<Rightarrow> nat \<Rightarrow> string \<Rightarrow> nat option" where
  \<comment> \<open>the atom takes \<open>n\<close> characters, then \<open>n - 1\<close>, down to \<open>lo\<close>, until the rest matches\<close>
  "tryCounts rest lo 0 s = (if lo = 0 then rest s else None)"
| "tryCounts rest lo (Suc n) s =
     (if Suc n < lo then None
      else (case rest (drop (Suc n) s) of
              Some m \<Rightarrow> Some (Suc n + m)
            | None \<Rightarrow> tryCounts rest lo n s))"

primrec matchSeq :: "atom list \<Rightarrow> string \<Rightarrow> nat option" where
  \<comment> \<open>the length of the match of the sequence at the start of the string\<close>
  "matchSeq [] = (\<lambda>s. Some 0)"
| "matchSeq (a # as) =
     (\<lambda>s. case a of Atom cls lo hi \<Rightarrow> tryCounts (matchSeq as) lo (maxRun cls hi s) s)"

primrec matchAlternatives :: "atom list list \<Rightarrow> string \<Rightarrow> nat option" where
  "matchAlternatives [] s = None"
| "matchAlternatives (alt # alts) s =
     (case matchSeq alt s of Some n \<Rightarrow> Some n | None \<Rightarrow> matchAlternatives alts s)"

primrec regexMatch :: "atom list list \<Rightarrow> string \<Rightarrow> string option" where
  \<comment> \<open>\<open>s.match(re)\<close>: the leftmost match, or \<open>None\<close> for \<open>null\<close>\<close>
  "regexMatch re [] = (case matchAlternatives re [] of Some n \<Rightarrow> Some [] | None \<Rightarrow> None)"
| "regexMatch re (c # cs) =
     (case matchAlternatives re (c # cs) of
        Some n \<Rightarrow> Some (take n (c # cs))
      | None \<Rightarrow> regexMatch re cs)"

definition one :: "(char \<Rightarrow> bool) \<Rightarrow> atom" where
  "one cls = Atom cls 1 (Some 1)"

definition optional :: "(char \<Rightarrow> bool) \<Rightarrow> atom" where
  "optional cls = Atom cls 0 (Some 1)"

definition isChar :: "char \<Rightarrow> char \<Rightarrow> bool" where
  "isChar x c = (c = x)"

definition emailRegex :: "atom list list" where
  \<comment> \<open>\<open>/([a-zA-Z0-9._%+-]+@[a-zA-Z0-9.-]+\.[a-zA-Z]{2,})/\<close>\<close>
  "emailRegex =
     [[Atom (\<lambda>c. isAlnum c \<or> c \<in> set ''._%+-'') 1 None,
       one (isChar (CHR ''@'')),
       Atom (\<lambda>c. isAlnum c \<or> c \<in> set ''.-'') 1 None,
       one (isChar (CHR ''.'')),
       Atom (\<lambda>c. isLower c \<or> isUpper c) 2 None]]"

definition phoneRegex :: "atom list list" where
  \<comment> \<open>\<open>/(\(?\d{3}\)?[-.\s]?\d{3}[-.\s]?\d{4})/\<close>\<close>
  "phoneRegex =
     [[optional (isChar (CHR ''('')),
       Atom isDigit 3 (Some 3),
       optional (isChar (CHR '')'')),
       optional (\<lambda>c. c \<in> set ''-.'' \<or> isWhiteSpace c),
       Atom isDigit 3 (Some 3),
       optional (\<lambda>c. c \<in> set ''-.'' \<or> isWhiteSpace c),
       Atom isDigit 4 (Some 4)]]"

definition dateRegex :: "atom list list" where
  \<comment> \<open>\<open>/(\d{4}-\d{2}-\d{2}|\d{2}\/\d{2}\/\d{4}|\d{1,2}\/\d{1,2}\/\d{2,4})/\<close>\<close>
  "dateRegex =
     [[Atom isDigit 4 (Some 4), one (isChar (CHR ''-'')), Atom isDigit 2 (Some 2),
       one (isChar (CHR ''-'')), Atom isDigit 2 (Some 2)],
      [Atom isDigit 2 (Some 2), one (isChar (CHR ''/'')), Atom isDigit 2 (Some 2),
       one (isChar (CHR ''/'')), Atom isDigit 4 (Some 4)],
      [Atom isDigit 1 (Some 2), one (isChar (CHR ''/'')), Atom isDigit 1 (Some 2),
       one (isChar (CHR ''/'')), Atom isDigit 2 (Some 4)]]"

definition amountRegex :: "atom list list" where
  \<comment> \<open>\<open>/(\$[\d,]+\.?\d*)/\<close>\<close>
  "amountRegex =
     [[one (isChar (CHR ''$'')),
       Atom (\<lambda>c. isDigit c \<or> c = CHR '','') 1 None,
       optional (isChar (CHR ''.'')),
       Atom isDigit 0 None]]"

subsection \<open>Extraction of key-value pairs\<close>

text \<open>
  \<^verbatim>\<open>
  async extractKeyValuePairs(text) {
    const keyValuePairs = [];
    const lines = text.split('\n').filter(line => line.trim());
    for (const line of lines) {
      if (line.includes(':')) {
        const [key, ...valueParts] = line.split(':');
        const value = valueParts.join(':').trim();
        if (key.trim() && value) {
          keyValuePairs.push({ key: key.trim(), value: value });
        }
      }
      const emailMatch = line.match(/([a-zA-Z0-9._%+-]+@[a-zA-Z0-9.-]+\.[a-zA-Z]{2,})/);
      if (emailMatch) { keyValuePairs.push({ key: 'Email', value: emailMatch[1] }); }
      const phoneMatch = line.match(/(\(?\d{3}\)?[-.\s]?\d{3}[-.\s]?\d{4})/);
      if (phoneMatch) { keyValuePairs.push({ key: 'Phone', value: phoneMatch[1] }); }
      const dateMatch =
        line.match(/(\d{4}-\d{2}-\d{2}|\d{2}\/\d{2}\/\d{4}|\d{1,2}\/\d{1,2}\/\d{2,4})/);
      if (dateMatch) { keyValuePairs.push({ key: 'Date', value: dateMatch[1] }); }
      const amountMatch = line.match(/(\$[\d,]+\.?\d*)/);
      if (amountMatch) { keyValuePairs.push({ key: 'Amount', value: amountMatch[1] }); }
    }
    const uniquePairs = keyValuePairs.filter((pair, index, self) =>
      index === self.findIndex(p => p.key === pair.key && p.value === pair.value)
    );
    return uniquePairs.slice(0, 20);
  }
  \<close>
  The values of the pairs are strings.
\<close>

definition textLines :: "string \<Rightarrow> string list" where
  \<comment> \<open>\<open>text.split('\n').filter(line => line.trim())\<close>\<close>
  "textLines t = filter (\<lambda>line. truthy (trim line)) (splitOn (CHR 0x0A) t)"

definition colonPair :: "string \<Rightarrow> kvPair list" where
  "colonPair line =
     (if includesStr line '':''
      then (case splitOn (CHR '':'') line of
              [] \<Rightarrow> []
            | k # valueParts \<Rightarrow>
                let v = trim (joinWith '':'' valueParts)
                in if truthy (trim k) \<and> truthy v then [\<lparr>key = trim k, val = JString v\<rparr>]
                   else [])
      else [])"

definition regexPair :: "string \<Rightarrow> atom list list \<Rightarrow> string \<Rightarrow> kvPair list" where
  "regexPair name re line =
     (case regexMatch re line of
        None \<Rightarrow> []
      | Some m \<Rightarrow> [\<lparr>key = name, val = JString m\<rparr>])"

definition linePairs :: "string \<Rightarrow> kvPair list" where
  \<comment> \<open>what one round of the loop pushes\<close>
  "linePairs line =
     colonPair line @ regexPair ''Email'' emailRegex line @ regexPair ''Phone'' phoneRegex line
     @ regexPair ''Date'' dateRegex line @ regexPair ''Amount'' amountRegex line"

definition candidatePairs :: "string \<Rightarrow> kvPair list" where
  \<comment> \<open>the array \<open>keyValuePairs\<close> after the loop\<close>
  "candidatePairs t = concat (map linePairs (textLines t))"

primrec findIndex :: "('a \<Rightarrow> bool) \<Rightarrow> 'a list \<Rightarrow> int" where
  \<comment> \<open>the index of the first element that satisfies \<open>P\<close>, or \<open>-1\<close>\<close>
  "findIndex P [] = - 1"
| "findIndex P (x # xs) =
     (if P x then 0 else (let i = findIndex P xs in if i < 0 then - 1 else i + 1))"

definition uniquePairs :: "kvPair list \<Rightarrow> kvPair list" where
  "uniquePairs self =
     map snd (filter (\<lambda>(index, pair).
                         int index = findIndex (\<lambda>p. key p = key pair \<and> val p = val pair) self)
                (enumerate 0 self))"

definition extractKeyValuePairs :: "string \<Rightarrow> kvPair list" where
  "extractKeyValuePairs t = take 20 (uniquePairs (candidatePairs t))"

definition repeatedLines :: string where
  \<comment> \<open>twenty-one times the line \<open>a:b\<close>\<close>
  "repeatedLines = concat (replicate 21 (''a:b'' @ [CHR 0x0A]))"

definition exampleText :: string where
  "exampleText = ''Name: John Doe'' @ [CHR 0x0A] @ ''Email: john@example.com''"

section \<open>Properties of key normalisation\<close>

lemma toLowerCaseChar_idem: "toLowerCaseChar (toLowerCaseChar c) = toLowerCaseChar c"
proof -
  have "code (char_of (code c + 32)) = code c + 32" if "code c \<le> 222"
    using that by (simp add: code_def)
  then show ?thesis
    by (auto simp: toLowerCaseChar_def isUpper_def)
qed

lemma toLowerCaseChar_not_upper: "\<not> isUpper (toLowerCaseChar c)"
proof -
  have "code (char_of (code c + 32)) = code c + 32" if "code c \<le> 222"
    using that by (simp add: code_def)
  then show ?thesis
    by (auto simp: toLowerCaseChar_def isUpper_def)
qed

lemma collapseWhitespace_chars:
  "c \<in> set (collapseWhitespace s) \<Longrightarrow> c = CHR ''_'' \<or> (c \<in> set s \<and> \<not> isWhiteSpace c)"
  by (induction s rule: collapseWhitespace.induct)
     (auto split: if_splits dest: set_dropWhileD)

lemma trim_subset: "set (trim s) \<subseteq> set s"
  unfolding trim_def by (auto dest!: set_dropWhileD)

lemma normalizeKey_chars:
  assumes "c \<in> set (normalizeKey k)"
  shows "isLower c \<or> isDigit c \<or> c = CHR ''_''"
proof -
  from assms consider "c = CHR ''_''"
    | "c \<in> set (stripNonWord (trim (toLowerCase k)))" "\<not> isWhiteSpace c"
    unfolding normalizeKey_def by (auto dest: collapseWhitespace_chars)
  then show ?thesis
  proof cases
    case 1
    then show ?thesis by simp
  next
    case 2
    then have w: "isWordChar c" and "c \<in> set (trim (toLowerCase k))"
      by (auto simp: stripNonWord_def)
    then have "c \<in> set (toLowerCase k)"
      using trim_subset by blast
    then have "\<not> isUpper c"
      by (auto simp: toLowerCase_def toLowerCaseChar_not_upper)
    with w show ?thesis
      by (auto simp: isWordChar_def isAlnum_def)
  qed
qed

text \<open>
  C2, counterexample. The hyphen of \<open>first-name!\<close> is not whitespace: it is deleted, the
  two words are joined, and the result is not \<open>first_name\<close>.
\<close>

theorem normalizeKey_hyphen_counterexample:
  "normalizeKey ''first-name!'' \<noteq> ''first_name''
   \<and> normalizeKey ''First Name'' \<noteq> normalizeKey ''first-name!''"
  by code_simp

text \<open>
  C2, amended. Normalisation ignores case and deletes punctuation: \<open>First Name\<close> and
  \<open>first name!\<close> both become \<open>first_name\<close>, and lower-casing the key first changes nothing.
  Only whitespace becomes an underscore: \<open>first-name!\<close> becomes \<open>firstname\<close>.
\<close>

theorem normalizeKey_case_punctuation:
  "normalizeKey ''First Name'' = ''first_name''
   \<and> normalizeKey ''first name!'' = ''first_name''
   \<and> normalizeKey ''first-name!'' = ''firstname''
   \<and> normalizeKey (toLowerCase k) = normalizeKey k"
proof -
  have "normalizeKey ''First Name'' = ''first_name''" by code_simp
  moreover have "normalizeKey ''first name!'' = ''first_name''" by code_simp
  moreover have "normalizeKey ''first-name!'' = ''firstname''" by code_simp
  moreover have "normalizeKey (toLowerCase k) = normalizeKey k"
    by (simp add: normalizeKey_def toLowerCase_def comp_def toLowerCaseChar_idem)
  ultimately show ?thesis by simp
qed

section \<open>Properties of indexing\<close>

lemma assign_keys:
  "map fst (assign obj k v) = (if k \<in> fst ` set obj then map fst obj else map fst obj @ [k])"
  by (induction obj k v rule: assign.induct) auto

lemma map_of_assign: "map_of (assign obj k v) = (map_of obj)(k \<mapsto> v)"
  by (induction obj k v rule: assign.induct) (auto simp: fun_upd_twist)

lemma distinct_assign: "distinct (map fst obj) \<Longrightarrow> distinct (map fst (assign obj k v))"
  by (simp add: assign_keys)

lemma arrayToObject_snoc:
  "arrayToObject (ps @ [p]) =
     (if indexable p then assign (arrayToObject ps) (key p) (val p) else arrayToObject ps)"
  by (auto simp: arrayToObject_def indexable_def setProp_def truthy_def isEmptyValue_def)

lemma arrayToObject_Nil: "arrayToObject [] = []"
  by (simp add: arrayToObject_def)

lemma arrayToObject_distinct: "distinct (map fst (arrayToObject ps))"
  by (induction ps rule: rev_induct)
     (auto simp: arrayToObject_Nil arrayToObject_snoc distinct_assign)

lemma arrayToObject_keys:
  "fst ` set (arrayToObject ps) = {key p | p. p \<in> set ps \<and> indexable p}"
proof (induction ps rule: rev_induct)
  case Nil
  then show ?case by (simp add: arrayToObject_Nil)
next
  case (snoc p ps)
  have "fst ` set (assign obj k v) = insert k (fst ` set obj)" for obj k v
    using assign_keys [of obj k v] by (metis (no_types, lifting) insert_absorb list.set_map set_append list.simps(15) Un_insert_right sup_bot.right_neutral empty_set)
  with snoc show ?case
    by (auto simp: arrayToObject_snoc)
qed

lemma arrayToObject_lookup:
  "map_of (arrayToObject ps) k =
     (case filter (\<lambda>p. indexable p \<and> key p = k) ps of [] \<Rightarrow> None | q # qs \<Rightarrow> Some (val (last (q # qs))))"
proof (induction ps rule: rev_induct)
  case Nil
  then show ?case by (simp add: arrayToObject_Nil)
next
  case (snoc p ps)
  then show ?case
    by (auto simp: arrayToObject_snoc map_of_assign split: list.splits)
qed

lemma objectEntries_mset: "mset (objectEntries obj) = mset obj"
  by (simp add: objectEntries_def)

lemma arrayToObject_values:
  assumes "(k, v) \<in> set (arrayToObject ps)"
  shows "\<not> isEmptyValue v \<and>
         filter (\<lambda>p. indexable p \<and> key p = k) ps \<noteq> [] \<and>
         v = val (last (filter (\<lambda>p. indexable p \<and> key p = k) ps))"
proof -
  have "map_of (arrayToObject ps) k = Some v"
    using assms arrayToObject_distinct by simp
  then have ne: "filter (\<lambda>p. indexable p \<and> key p = k) ps \<noteq> []"
    and v: "v = val (last (filter (\<lambda>p. indexable p \<and> key p = k) ps))"
    by (auto simp: arrayToObject_lookup split: list.splits)
  from ne have "last (filter (\<lambda>p. indexable p \<and> key p = k) ps)
                  \<in> set (filter (\<lambda>p. indexable p \<and> key p = k) ps)"
    by (rule last_in_set)
  then have "indexable (last (filter (\<lambda>p. indexable p \<and> key p = k) ps))"
    by simp
  with v have "\<not> isEmptyValue v" by (simp add: indexable_def)
  with ne v show ?thesis by simp
qed

lemma buildIndexEntries_array:
  "buildIndexEntries docId fname origName (arrayToObject ps) atDate =
     map (\<lambda>(k, v). \<lparr>documentId = docId, filename = fname, originalFilename = origName,
                     entryKey = k, keyNormalized = normalizeKey k, entryValue = v,
                     valueType = getValueType v, extractedAt = atDate\<rparr>)
       (objectEntries (arrayToObject ps))"
proof -
  have "\<forall>x \<in> set (objectEntries (arrayToObject ps)). (\<lambda>(k, v). \<not> isEmptyValue v) x"
    using arrayToObject_values set_mset_mset objectEntries_mset
    by (metis (mono_tags, lifting) case_prodI2)
  then have "filter (\<lambda>(k, v). \<not> isEmptyValue v) (objectEntries (arrayToObject ps))
             = objectEntries (arrayToObject ps)"
    by (simp only: filter_True)
  then show ?thesis by (simp add: buildIndexEntries_def)
qed

lemma buildIndexEntries_keys:
  "map entryKey (buildIndexEntries docId fname origName (arrayToObject ps) atDate)
     = map fst (objectEntries (arrayToObject ps))"
  by (simp add: buildIndexEntries_array comp_def case_prod_unfold)

lemma objectEntries_keys_distinct:
  "distinct (map fst obj) \<Longrightarrow> distinct (map fst (objectEntries obj))"
  using objectEntries_mset [of obj]
  by (metis distinct_map mset_eq_imp_distinct_iff mset_eq_setD inj_on_cong)

lemma buildIndexEntries_length:
  "length (buildIndexEntries docId fname origName (arrayToObject ps) atDate)
     = card {key p | p. p \<in> set ps \<and> indexable p}"
proof -
  have "length (buildIndexEntries docId fname origName (arrayToObject ps) atDate)
          = length (map fst (arrayToObject ps))"
    using objectEntries_mset [of "arrayToObject ps"]
    by (simp add: buildIndexEntries_array) (metis size_mset)
  also have "\<dots> = card (set (map fst (arrayToObject ps)))"
    using arrayToObject_distinct [of ps] distinct_card [of "map fst (arrayToObject ps)"]
    by simp
  also have "\<dots> = card {key p | p. p \<in> set ps \<and> indexable p}"
    using arrayToObject_keys [of ps] by simp
  finally show ?thesis .
qed

lemma buildIndexEntries_key_set:
  "set (map entryKey (buildIndexEntries docId fname origName (arrayToObject ps) atDate))
     = {key p | p. p \<in> set ps \<and> indexable p}"
proof -
  have "set (map fst (objectEntries (arrayToObject ps))) = fst ` set (arrayToObject ps)"
    using objectEntries_mset [of "arrayToObject ps"] by (metis list.set_map set_mset_mset)
  then show ?thesis
    unfolding buildIndexEntries_keys by (simp only: arrayToObject_keys)
qed

lemma buildIndexEntries_from_pair:
  assumes "e \<in> set (buildIndexEntries docId fname origName (arrayToObject ps) atDate)"
  shows "\<not> isEmptyValue (entryValue e)
         \<and> (\<exists>p \<in> set ps. indexable p \<and> key p = entryKey e \<and> val p = entryValue e)"
proof -
  from assms obtain k v where kv: "(k, v) \<in> set (objectEntries (arrayToObject ps))"
    and e: "entryKey e = k" "entryValue e = v"
    unfolding buildIndexEntries_array by auto
  from kv have "(k, v) \<in> set (arrayToObject ps)"
    using objectEntries_mset [of "arrayToObject ps"] by (metis set_mset_mset)
  note found = arrayToObject_values [OF this]
  from found have v: "\<not> isEmptyValue v"
    by (rule conjunct1)
  from found have ne: "filter (\<lambda>p. indexable p \<and> key p = k) ps \<noteq> []"
    by (rule conjunct1 [OF conjunct2])
  from found have last: "v = val (last (filter (\<lambda>p. indexable p \<and> key p = k) ps))"
    by (rule conjunct2 [OF conjunct2])
  from ne have "last (filter (\<lambda>p. indexable p \<and> key p = k) ps)
                  \<in> set (filter (\<lambda>p. indexable p \<and> key p = k) ps)"
    by (rule last_in_set)
  with last have "\<exists>p \<in> set ps. indexable p \<and> key p = k \<and> val p = v"
    by auto
  with v e show ?thesis by simp
qed

lemma insertMany_result:
  assumes "insertMany m es db = Inr db'"
  shows "db' = db @ map (\<lambda>e. e\<lparr>entryValue := storedValue m (entryValue e)\<rparr>) es"
  using assms by (simp add: insertMany_def split: if_splits)

lemma indexKeyValuePairs_result:
  assumes "indexKeyValuePairs m docId fname origName (KVArray ps) atDate db = Inr (n, db')"
  shows "n = length (buildIndexEntries docId fname origName (arrayToObject ps) atDate)
         \<and> db' = db @ map (\<lambda>e. e\<lparr>entryValue := storedValue m (entryValue e)\<rparr>)
                         (buildIndexEntries docId fname origName (arrayToObject ps) atDate)"
proof (cases "buildIndexEntries docId fname origName (arrayToObject ps) atDate = []")
  case True
  with assms show ?thesis
    by (simp add: indexKeyValuePairs_def Let_def)
next
  case False
  with assms obtain d where "insertMany m (buildIndexEntries docId fname origName (arrayToObject ps) atDate) db = Inr d"
    and "n = length (buildIndexEntries docId fname origName (arrayToObject ps) atDate)" and "db' = d"
    by (auto simp: indexKeyValuePairs_def Let_def split: sum.splits)
  with insertMany_result show ?thesis by blast
qed

text \<open>
  C1, amended. An array of pairs is first folded into a dictionary keyed by \<open>key\<close>, so one
  entry is created for each distinct key, not for each pair. For an array without the key
  \<open>__proto__\<close>: when the call returns, the count is the number of distinct keys among the
  pairs whose key is not empty and whose value is not \<open>null\<close>, \<open>undefined\<close> or the empty
  string; exactly that many entries are appended to the collection, one for each of these
  keys; and every entry handed to \<open>insertMany\<close> has the key and the value of a pair whose
  value is not empty.
\<close>

theorem indexKeyValuePairs_array:
  assumes "indexKeyValuePairs m docId fname origName (KVArray ps) atDate db = Inr (n, db')"
    and "\<forall>p \<in> set ps. key p \<noteq> ''__proto__''"
  shows "n = card {key p | p. p \<in> set ps \<and> key p \<noteq> [] \<and> \<not> isEmptyValue (val p)}
         \<and> (\<exists>es. db' = db @ es \<and> length es = n \<and> distinct (map entryKey es)
              \<and> set (map entryKey es)
                  = {key p | p. p \<in> set ps \<and> key p \<noteq> [] \<and> \<not> isEmptyValue (val p)})
         \<and> (\<forall>e \<in> set (buildIndexEntries docId fname origName (arrayToObject ps) atDate).
               \<not> isEmptyValue (entryValue e)
               \<and> (\<exists>p \<in> set ps. key p = entryKey e \<and> val p = entryValue e))"
proof -
  define built where "built = buildIndexEntries docId fname origName (arrayToObject ps) atDate"
  define es where "es = map (\<lambda>e. e\<lparr>entryValue := storedValue m (entryValue e)\<rparr>) built"
  have same: "{key p | p. p \<in> set ps \<and> indexable p}
                = {key p | p. p \<in> set ps \<and> key p \<noteq> [] \<and> \<not> isEmptyValue (val p)}"
    using assms(2) by (auto simp: indexable_def)
  have keys: "map entryKey es = map entryKey built"
    by (simp add: es_def comp_def)
  from indexKeyValuePairs_result [OF assms(1)] have res: "n = length built" "db' = db @ es"
    by (simp_all add: built_def es_def)
  have len: "length built = card {key p | p. p \<in> set ps \<and> indexable p}"
    unfolding built_def by (rule buildIndexEntries_length)
  have dist: "distinct (map entryKey es)"
    unfolding keys built_def buildIndexEntries_keys
    by (rule objectEntries_keys_distinct) (rule arrayToObject_distinct)
  have kset: "set (map entryKey es) = {key p | p. p \<in> set ps \<and> indexable p}"
    unfolding keys built_def by (rule buildIndexEntries_key_set)
  have vals: "\<not> isEmptyValue (entryValue e)
              \<and> (\<exists>p \<in> set ps. key p = entryKey e \<and> val p = entryValue e)"
    if "e \<in> set built" for e
    using buildIndexEntries_from_pair [OF that [unfolded built_def]] by blast
  have "n = card {key p | p. p \<in> set ps \<and> key p \<noteq> [] \<and> \<not> isEmptyValue (val p)}"
    using res(1) len same by simp
  moreover have "\<exists>es. db' = db @ es \<and> length es = n \<and> distinct (map entryKey es)
              \<and> set (map entryKey es)
                  = {key p | p. p \<in> set ps \<and> key p \<noteq> [] \<and> \<not> isEmptyValue (val p)}"
  proof (intro exI conjI)
    show "db' = db @ es" by (rule res(2))
    show "length es = n" by (simp add: es_def res(1))
    show "distinct (map entryKey es)" by (rule dist)
    show "set (map entryKey es)
            = {key p | p. p \<in> set ps \<and> key p \<noteq> [] \<and> \<not> isEmptyValue (val p)}"
      using kset same by simp
  qed
  moreover have "\<forall>e \<in> set built. \<not> isEmptyValue (entryValue e)
               \<and> (\<exists>p \<in> set ps. key p = entryKey e \<and> val p = entryValue e)"
    using vals by blast
  ultimately show ?thesis
    unfolding built_def by blast
qed

text \<open>
  The call returns a count whenever the file names are not empty and no indexed key
  normalises to the empty string (the schema requires \<open>keyNormalized\<close>).
\<close>

lemma indexKeyValuePairs_succeeds:
  assumes "fname \<noteq> []" "origName \<noteq> []"
    and "\<forall>p \<in> set ps. indexable p \<longrightarrow> normalizeKey (key p) \<noteq> []"
  shows "\<exists>n db'. indexKeyValuePairs m docId fname origName (KVArray ps) atDate db = Inr (n, db')"
proof -
  have "validEntry e"
    if "e \<in> set (buildIndexEntries docId fname origName (arrayToObject ps) atDate)" for e
  proof -
    from that obtain k v where kv: "(k, v) \<in> set (objectEntries (arrayToObject ps))"
      and e: "e = \<lparr>documentId = docId, filename = fname, originalFilename = origName,
                     entryKey = k, keyNormalized = normalizeKey k, entryValue = v,
                     valueType = getValueType v, extractedAt = atDate\<rparr>"
      unfolding buildIndexEntries_array by auto
    from kv have "(k, v) \<in> set (arrayToObject ps)"
      using objectEntries_mset [of "arrayToObject ps"] by (metis set_mset_mset)
    from arrayToObject_values [OF this]
    obtain q where q: "q \<in> set ps" "indexable q" "key q = k" and v: "\<not> isEmptyValue v"
      by (metis (mono_tags, lifting) last_in_set mem_Collect_eq set_filter)
    from q assms(3) have "normalizeKey k \<noteq> []" and "k \<noteq> []"
      by (auto simp: indexable_def)
    moreover from v have "v \<noteq> JNull" "v \<noteq> JUndefined"
      by (auto simp: isEmptyValue_def)
    moreover have "getValueType v \<in> set [''string'', ''number'', ''boolean'', ''date'', ''array'', ''object'']"
      by (cases v) simp_all
    ultimately show ?thesis
      using assms(1,2) unfolding e validEntry_def by simp
  qed
  then have "list_all validEntry (buildIndexEntries docId fname origName (arrayToObject ps) atDate)"
    by (simp add: list_all_iff)
  then show ?thesis
    by (simp add: indexKeyValuePairs_def insertMany_def Let_def)
qed

text \<open>
  The theorem at an array in which the key \<open>Name\<close> occurs twice and one value is \<open>null\<close>.
\<close>

theorem indexKeyValuePairs_array_witness:
  "indexKeyValuePairs exampleMongoose 7 ''doc-1.pdf'' ''form.pdf''
     (KVArray [\<lparr>key = ''Name'', val = JString ''John''\<rparr>, \<lparr>key = ''Age'', val = JNull\<rparr>,
               \<lparr>key = ''Name'', val = JString ''Jane''\<rparr>, \<lparr>key = ''Paid'', val = JBoolean True\<rparr>])
     1000 []
   = Inr (2, [\<lparr>documentId = 7, filename = ''doc-1.pdf'', originalFilename = ''form.pdf'',
               entryKey = ''Name'', keyNormalized = ''name'', entryValue = JString ''Jane'',
               valueType = ''string'', extractedAt = 1000\<rparr>,
              \<lparr>documentId = 7, filename = ''doc-1.pdf'', originalFilename = ''form.pdf'',
               entryKey = ''Paid'', keyNormalized = ''paid'', entryValue = JBoolean True,
               valueType = ''boolean'', extractedAt = 1000\<rparr>])
   \<and> card {key p | p. p \<in> set [\<lparr>key = ''Name'', val = JString ''John''\<rparr>,
                                 \<lparr>key = ''Age'', val = JNull\<rparr>,
                                 \<lparr>key = ''Name'', val = JString ''Jane''\<rparr>,
                                 \<lparr>key = ''Paid'', val = JBoolean True\<rparr>]
                       \<and> key p \<noteq> [] \<and> \<not> isEmptyValue (val p)} = 2"
proof -
  have h: "indexKeyValuePairs exampleMongoose 7 ''doc-1.pdf'' ''form.pdf''
     (KVArray [\<lparr>key = ''Name'', val = JString ''John''\<rparr>, \<lparr>key = ''Age'', val = JNull\<rparr>,
               \<lparr>key = ''Name'', val = JString ''Jane''\<rparr>, \<lparr>key = ''Paid'', val = JBoolean True\<rparr>])
     1000 []
   = Inr (2, [\<lparr>documentId = 7, filename = ''doc-1.pdf'', originalFilename = ''form.pdf'',
               entryKey = ''Name'', keyNormalized = ''name'', entryValue = JString ''Jane'',
               valueType = ''string'', extractedAt = 1000\<rparr>,
              \<lparr>documentId = 7, filename = ''doc-1.pdf'', originalFilename = ''form.pdf'',
               entryKey = ''Paid'', keyNormalized = ''paid'', entryValue = JBoolean True,
               valueType = ''boolean'', extractedAt = 1000\<rparr>])"
    by code_simp
  have k: "\<forall>p \<in> set [\<lparr>key = ''Name'', val = JString ''John''\<rparr>, \<lparr>key = ''Age'', val = JNull\<rparr>,
                       \<lparr>key = ''Name'', val = JString ''Jane''\<rparr>,
                       \<lparr>key = ''Paid'', val = JBoolean True\<rparr>]. key p \<noteq> ''__proto__''"
    by simp
  from indexKeyValuePairs_array [OF h k] h show ?thesis by simp
qed

text \<open>
  C1, counterexample. Two pairs with the key \<open>Name\<close> and non-empty values: the call
  returns 1, not 2, and one entry is inserted.
\<close>

theorem indexKeyValuePairs_duplicate_key_counterexample:
  "indexKeyValuePairs exampleMongoose 7 ''doc-1.pdf'' ''form.pdf''
     (KVArray [\<lparr>key = ''Name'', val = JString ''John''\<rparr>,
               \<lparr>key = ''Name'', val = JString ''Jane''\<rparr>])
     1000 []
   = Inr (1, [\<lparr>documentId = 7, filename = ''doc-1.pdf'', originalFilename = ''form.pdf'',
               entryKey = ''Name'', keyNormalized = ''name'', entryValue = JString ''Jane'',
               valueType = ''string'', extractedAt = 1000\<rparr>])
   \<and> \<not> isEmptyValue (JString ''John'') \<and> \<not> isEmptyValue (JString ''Jane'')"
  by code_simp

section \<open>Properties of the searches\<close>

lemma newSet_aux:
  "set (foldl (\<lambda>s x. if x \<in> set s then s else s @ [x]) acc xs) = set acc \<union> set xs
   \<and> (distinct acc \<longrightarrow> distinct (foldl (\<lambda>s x. if x \<in> set s then s else s @ [x]) acc xs))"
  by (induction xs arbitrary: acc) auto

lemma set_newSet: "set (newSet xs) = set xs"
  using newSet_aux [of "[]" xs] by (simp add: newSet_def)

lemma distinct_newSet: "distinct (newSet xs)"
  using newSet_aux [of "[]" xs] by (simp add: newSet_def)

lemma length_filter_disjoint:
  "(\<And>x. x \<in> set xs \<Longrightarrow> \<not> (P x \<and> Q x)) \<Longrightarrow>
     length (filter P xs) + length (filter Q xs) = length (filter (\<lambda>x. P x \<or> Q x) xs)"
  by (induction xs) auto

lemma frequency_sum:
  "distinct us \<Longrightarrow>
     sum_list (map (\<lambda>u. length (filter (\<lambda>r. g r = u \<and> Q r) rs)) us)
       = length (filter (\<lambda>r. g r \<in> set us \<and> Q r) rs)"
proof (induction us)
  case Nil
  then show ?case by simp
next
  case (Cons u us)
  then have "sum_list (map (\<lambda>u. length (filter (\<lambda>r. g r = u \<and> Q r) rs)) (u # us))
      = length (filter (\<lambda>r. g r = u \<and> Q r) rs)
        + length (filter (\<lambda>r. g r \<in> set us \<and> Q r) rs)"
    by simp
  also have "\<dots> = length (filter (\<lambda>r. (g r = u \<and> Q r) \<or> (g r \<in> set us \<and> Q r)) rs)"
    using Cons.prems by (intro length_filter_disjoint) auto
  also have "\<dots> = length (filter (\<lambda>r. g r \<in> set (u # us) \<and> Q r) rs)"
    by (rule arg_cong [where f = length], rule filter_cong) auto
  finally show ?case .
qed

text \<open>
  The counts of \<open>valueFrequency\<close> add up to the number of results whose value is not NaN:
  to \<open>totalResults\<close> when no result is NaN, whatever the types of the values.
\<close>

lemma searchByKeyExact_frequency_sum:
  "sum_list (map count (valueFrequency (searchByKeyExact keyName limit db)))
     = length (filter (\<lambda>r. entryValue r \<noteq> JNumber NaN) (results (searchByKeyExact keyName limit db)))
   \<and> totalResults (searchByKeyExact keyName limit db)
     = length (results (searchByKeyExact keyName limit db))"
proof -
  define rs where "rs = find (\<lambda>e. entryKey e = keyName) limit db"
  have "sum_list (map count (map (frequencyOf rs) (newSet (map entryValue rs))))
      = sum_list (map (\<lambda>u. length (filter (\<lambda>r. entryValue r = u \<and> entryValue r \<noteq> JNumber NaN) rs))
          (newSet (map entryValue rs)))"
    by (simp add: comp_def frequencyOf_def strictEquals_def Let_def)
  also have "\<dots> = length (filter (\<lambda>r. entryValue r \<in> set (newSet (map entryValue rs))
                                      \<and> entryValue r \<noteq> JNumber NaN) rs)"
    using distinct_newSet by (rule frequency_sum)
  also have "\<dots> = length (filter (\<lambda>r. entryValue r \<noteq> JNumber NaN) rs)"
    by (rule arg_cong [where f = length], rule filter_cong) (auto simp: set_newSet)
  finally show ?thesis
    by (simp add: searchByKeyExact_def Let_def rs_def)
qed

lemma set_find: "e \<in> set (find q limit db) \<Longrightarrow> e \<in> set db \<and> q e"
  by (auto simp: find_def applyLimit_def sortNewestFirst_def split: if_splits dest: in_set_takeD)

lemma set_deleteMany: "set (snd (deleteMany docId db)) = {e \<in> set db. documentId e \<noteq> docId}"
  by (auto simp: deleteMany_def)

lemma addToGroups_ids:
  "groupDocumentId ` set (addToGroups gs r) = insert (documentId r) (groupDocumentId ` set gs)"
  by (induction gs r rule: addToGroups.induct) auto

lemma foldl_addToGroups_ids:
  "groupDocumentId ` set (foldl addToGroups gs rs) = groupDocumentId ` set gs \<union> documentId ` set rs"
  by (induction rs arbitrary: gs) (auto simp: addToGroups_ids)

lemma results_searchByKeyExact:
  "results (searchByKeyExact keyName limit db) = find (\<lambda>e. entryKey e = keyName) limit db"
  by (simp add: searchByKeyExact_def Let_def)

lemma groupedResults_searchByKeyPartial:
  "groupedResults (searchByKeyPartial keyName limit db)
     = foldl addToGroups []
         (find (\<lambda>e. regexTestI (normalizeKey keyName) (keyNormalized e)) limit db)"
  by (simp add: searchByKeyPartial_def Let_def)

lemma removeDocumentIndex_none:
  "\<forall>e \<in> set db. documentId e \<noteq> docId \<Longrightarrow> removeDocumentIndex docId db = (0, db)"
  by (simp add: removeDocumentIndex_def deleteMany_def filter_id_conv)

lemma removed_absent:
  "e \<in> set (snd (removeDocumentIndex docId db)) \<Longrightarrow> documentId e \<noteq> docId"
  by (simp add: removeDocumentIndex_def set_deleteMany)

lemma searchByKeyExact_from_db:
  assumes "r \<in> set (results (searchByKeyExact keyName limit db))"
  shows "r \<in> set db"
  using assms set_find unfolding results_searchByKeyExact by blast

lemma searchByKeyPartial_from_db:
  assumes "g \<in> set (groupedResults (searchByKeyPartial keyName limit db))"
  shows "\<exists>e \<in> set db. documentId e = groupDocumentId g"
proof -
  let ?rs = "find (\<lambda>e. regexTestI (normalizeKey keyName) (keyNormalized e)) limit db"
  from assms have "groupDocumentId g \<in> groupDocumentId ` set (foldl addToGroups [] ?rs)"
    unfolding groupedResults_searchByKeyPartial by (rule imageI)
  then have "groupDocumentId g \<in> documentId ` set ?rs"
    unfolding foldl_addToGroups_ids by simp
  then obtain e where "e \<in> set ?rs" "documentId e = groupDocumentId g"
    by auto
  with set_find [of e] show ?thesis by blast
qed

text \<open>
  C8. After \<open>removeDocumentIndex\<close> no result of the exact search and no group of the
  partial search refers to the document, for every key and limit. The call returns the
  number of entries the document had: 0 for a document without entries, which leaves the
  collection as it was, and 0 when the call is repeated.
\<close>

theorem removeDocumentIndex_cascades:
  "(\<forall>r \<in> set (results (searchByKeyExact keyName limit (snd (removeDocumentIndex docId db)))).
      documentId r \<noteq> docId)
   \<and> (\<forall>g \<in> set (groupedResults (searchByKeyPartial keyName limit (snd (removeDocumentIndex docId db)))).
      groupDocumentId g \<noteq> docId)
   \<and> fst (removeDocumentIndex docId db) = length (filter (\<lambda>e. documentId e = docId) db)
   \<and> ((\<forall>e \<in> set db. documentId e \<noteq> docId) \<longrightarrow> removeDocumentIndex docId db = (0, db))
   \<and> removeDocumentIndex docId (snd (removeDocumentIndex docId db))
       = (0, snd (removeDocumentIndex docId db))"
proof (intro conjI ballI impI)
  let ?db = "snd (removeDocumentIndex docId db)"
  show "documentId r \<noteq> docId"
    if "r \<in> set (results (searchByKeyExact keyName limit ?db))" for r
    by (rule removed_absent [of r docId db]) (rule searchByKeyExact_from_db [OF that])
  show "groupDocumentId g \<noteq> docId"
    if "g \<in> set (groupedResults (searchByKeyPartial keyName limit ?db))" for g
  proof -
    from searchByKeyPartial_from_db [OF that]
    obtain e where "e \<in> set ?db" "documentId e = groupDocumentId g" by blast
    with removed_absent [of e docId db] show ?thesis by simp
  qed
  show "fst (removeDocumentIndex docId db) = length (filter (\<lambda>e. documentId e = docId) db)"
    by (simp add: removeDocumentIndex_def deleteMany_def)
  show "removeDocumentIndex docId db = (0, db)" if "\<forall>e \<in> set db. documentId e \<noteq> docId"
    using that by (rule removeDocumentIndex_none)
  show "removeDocumentIndex docId ?db = (0, ?db)"
    by (rule removeDocumentIndex_none) (simp add: removed_absent)
qed

text \<open>
  The theorem on the example collection: document 1 is removed and the searches still
  find document 2; document 3 has no entries.
\<close>

theorem removeDocumentIndex_cascades_witness:
  "map documentId (results (searchByKeyExact ''Email'' 100 (snd (removeDocumentIndex 1 exampleIndex))))
     = [2]
   \<and> map groupDocumentId
        (groupedResults (searchByKeyPartial ''mail'' 100 (snd (removeDocumentIndex 1 exampleIndex))))
     = [2]
   \<and> fst (removeDocumentIndex 1 exampleIndex) = 2
   \<and> removeDocumentIndex 3 exampleIndex = (0, exampleIndex)"
proof -
  have none: "\<forall>e \<in> set exampleIndex. documentId e \<noteq> 3"
    by (simp add: exampleIndex_def)
  have a: "removeDocumentIndex 3 exampleIndex = (0, exampleIndex)"
    using removeDocumentIndex_cascades [of "''Email''" 100 3 exampleIndex] none by blast
  have b: "map documentId
             (results (searchByKeyExact ''Email'' 100 (snd (removeDocumentIndex 1 exampleIndex))))
           = [2]"
    by code_simp
  have c: "map groupDocumentId
             (groupedResults (searchByKeyPartial ''mail'' 100 (snd (removeDocumentIndex 1 exampleIndex))))
           = [2]"
    by code_simp
  have d: "fst (removeDocumentIndex 1 exampleIndex) = 2"
    by code_simp
  from a b c d show ?thesis by simp
qed

text \<open>
  The index never holds NaN. Its entries are written by \<open>indexKeyValuePairs\<close> alone,
  from the output of a provider: strings (the mock provider) or the result of
  \<open>JSON.parse\<close>, which is never NaN; the copy that the library stores of a value other
  than NaN is not NaN; and removing entries adds none.
\<close>

lemma indexKeyValuePairs_keeps_nan_out:
  assumes "indexKeyValuePairs m docId fname origName (KVArray ps) atDate db = Inr (n, db')"
    and "\<forall>p \<in> set ps. val p \<noteq> JNumber NaN"
    and "\<forall>v. v \<noteq> JNumber NaN \<longrightarrow> storedValue m v \<noteq> JNumber NaN"
    and "\<forall>e \<in> set db. entryValue e \<noteq> JNumber NaN"
  shows "\<forall>e \<in> set db'. entryValue e \<noteq> JNumber NaN"
proof -
  let ?built = "buildIndexEntries docId fname origName (arrayToObject ps) atDate"
  have "entryValue e \<noteq> JNumber NaN" if "e \<in> set ?built" for e
    using buildIndexEntries_from_pair [OF that] assms(2) by metis
  with assms(3) have "storedValue m (entryValue e) \<noteq> JNumber NaN" if "e \<in> set ?built" for e
    using that by blast
  with assms(4) indexKeyValuePairs_result [OF assms(1)] show ?thesis
    by auto
qed

lemma removeDocumentIndex_keeps_nan_out:
  assumes "\<forall>e \<in> set db. entryValue e \<noteq> JNumber NaN"
  shows "\<forall>e \<in> set (snd (removeDocumentIndex docId db)). entryValue e \<noteq> JNumber NaN"
  using assms by (simp add: removeDocumentIndex_def set_deleteMany)

text \<open>
  C7. On an index without the value NaN the counts of \<open>valueFrequency\<close> add up to
  \<open>totalResults\<close>, for every key and limit and for values of every type: each result is
  counted under exactly one unique value.
\<close>

theorem searchByKeyExact_frequency_total:
  assumes "\<forall>e \<in> set db. entryValue e \<noteq> JNumber NaN"
  shows "sum_list (map count (valueFrequency (searchByKeyExact keyName limit db)))
           = totalResults (searchByKeyExact keyName limit db)"
proof -
  have "entryValue r \<noteq> JNumber NaN"
    if "r \<in> set (results (searchByKeyExact keyName limit db))" for r
    using assms searchByKeyExact_from_db [OF that] by blast
  then have "filter (\<lambda>r. entryValue r \<noteq> JNumber NaN) (results (searchByKeyExact keyName limit db))
               = results (searchByKeyExact keyName limit db)"
    by (simp add: filter_id_conv)
  with searchByKeyExact_frequency_sum [of keyName limit db] show ?thesis
    by simp
qed

text \<open>
  The theorem on six entries with the key \<open>Total\<close>: a string that occurs twice, a number,
  two distinct objects and a boolean.
\<close>

theorem searchByKeyExact_frequency_total_witness:
  "map count (valueFrequency (searchByKeyExact ''Total'' 100 mixedIndex)) = [2, 1, 1, 1, 1]
   \<and> totalResults (searchByKeyExact ''Total'' 100 mixedIndex) = 6
   \<and> sum_list (map count (valueFrequency (searchByKeyExact ''Total'' 100 mixedIndex)))
       = totalResults (searchByKeyExact ''Total'' 100 mixedIndex)"
proof -
  have h: "\<forall>e \<in> set mixedIndex. entryValue e \<noteq> JNumber NaN"
    by (simp add: mixedIndex_def totalEntry_def)
  have "map count (valueFrequency (searchByKeyExact ''Total'' 100 mixedIndex)) = [2, 1, 1, 1, 1]"
    by code_simp
  moreover have "totalResults (searchByKeyExact ''Total'' 100 mixedIndex) = 6"
    by code_simp
  ultimately show ?thesis
    using searchByKeyExact_frequency_total [OF h, of "''Total''" 100] by simp
qed

section \<open>Properties of text extraction\<close>

lemma quotientAbove_iff: "quotientAbove a m = (3 * m < 10 * a)"
proof (cases "m = 0")
  case True
  then show ?thesis by (simp add: quotientAbove_def)
next
  case False
  then have "((of_nat a / of_nat m :: rat) > 3 / 10) = ((3::rat) * of_nat m < 10 * of_nat a)"
    by (simp add: field_simps)
  also have "\<dots> = ((of_nat (3 * m) :: rat) < of_nat (10 * a))"
    by simp
  also have "\<dots> = (3 * m < 10 * a)"
    by (simp only: of_nat_less_iff)
  finally show ?thesis using False by (simp add: quotientAbove_def)
qed

text \<open>
  A file whose first four bytes are not \<open>%PDF\<close>: the error of the header check is caught
  by the handler of the same function, which runs the fallback for scanned files; what
  the caller receives is the error of that fallback.
\<close>

lemma extractFromPDF_invalid_header:
  assumes "fs filePath = Some dataBuffer" and "take 4 dataBuffer \<noteq> ''%PDF''"
  shows "extractFromPDF pdfParse fs filePath = extractFromScannedPDF filePath"
  using assms
  by (simp add: extractFromPDF_def parsePDF_def readFileSync_def extractFromScannedPDF_def
      newError_def Let_def)

text \<open>
  A file with the header \<open>%PDF\<close> that parses: the trimmed text is returned exactly when it
  has more than 20 characters and its letters and digits are more than three tenths of
  its characters other than \<open>\\\<close>, \<open>s\<close>, \<open>n\<close>, \<open>r\<close> and \<open>t\<close>.
\<close>

lemma extractFromPDF_parsed:
  assumes "fs filePath = Some dataBuffer" and "take 4 dataBuffer = ''%PDF''"
    and "pdfParse dataBuffer = Inr data"
  shows "extractFromPDF pdfParse fs filePath =
           (if length (trim (pdfText data)) > 20
               \<and> 3 * meaningfulChars (trim (pdfText data)) < 10 * alphanumericChars (trim (pdfText data))
            then Inr (trim (pdfText data)) else extractFromScannedPDF filePath)"
  using assms
  by (simp add: extractFromPDF_def parsePDF_def readFileSync_def extractFromScannedPDF_def
      newError_def Let_def hasReadableText_def quotientAbove_iff)

text \<open>
  C3 at a file declared as PDF whose content is \<open>hello world\<close>. The caller receives the
  error of the fallback for scanned files, with the step
  \<open>PDF_IMAGE_CONVERSION_UNAVAILABLE\<close>, and not the error
  \<open>File does not appear to be a valid PDF\<close> that the header check throws.
\<close>

theorem extractText_invalid_header:
  "extractText (parsesTo ''text'') noOcr (oneFile ''upload.pdf'' ''hello world'')
     ''upload.pdf'' ''application/pdf''
   = Inl \<lparr>message = scannedPdfMessage,
           processingStep = Some ''PDF_IMAGE_CONVERSION_UNAVAILABLE''\<rparr>
   \<and> scannedPdfMessage \<noteq> ''File does not appear to be a valid PDF''"
proof -
  have "extractFromPDF (parsesTo ''text'') (oneFile ''upload.pdf'' ''hello world'') ''upload.pdf''
          = extractFromScannedPDF ''upload.pdf''"
    by (rule extractFromPDF_invalid_header [where dataBuffer = "''hello world''"])
       (simp_all add: oneFile_def)
  then have "extractText (parsesTo ''text'') noOcr (oneFile ''upload.pdf'' ''hello world'')
     ''upload.pdf'' ''application/pdf''
   = Inl \<lparr>message = scannedPdfMessage,
           processingStep = Some ''PDF_IMAGE_CONVERSION_UNAVAILABLE''\<rparr>"
    by (simp add: extractText_def extractFromScannedPDF_def newError_def)
  moreover have "scannedPdfMessage \<noteq> ''File does not appear to be a valid PDF''"
    by (simp add: scannedPdfMessage_def)
  ultimately show ?thesis by simp
qed

text \<open>
  C5 at two parsed texts of 22 characters. In \<open>a\<close>, twenty spaces, \<open>b\<close> every character
  that is not whitespace is a letter, yet the text goes to the fallback: the spaces count as
  meaningful characters, and 2 of 22 is below 0.3. In six \<open>s\<close> and sixteen \<open>!\<close> the
  letters are 6 of the 22 characters that are not whitespace, below 0.3, yet the text is
  accepted: the letters \<open>s\<close> are taken out of the divisor, and 6 of 16 is above 0.3.
\<close>

theorem extractFromPDF_heuristic:
  "extractFromPDF (parsesTo spacedText) (oneFile ''upload.pdf'' ''%PDF-1.4'') ''upload.pdf''
     = extractFromScannedPDF ''upload.pdf''
   \<and> specMeaningful spacedText
   \<and> extractFromPDF (parsesTo symbolText) (oneFile ''upload.pdf'' ''%PDF-1.4'') ''upload.pdf''
     = Inr symbolText
   \<and> \<not> specMeaningful symbolText"
proof -
  have t1: "trim spacedText = spacedText"
    by code_simp
  have t2: "trim symbolText = symbolText"
    by code_simp
  have c1: "length spacedText = 22" "alphanumericChars spacedText = 2"
    "meaningfulChars spacedText = 22" "nonWhitespaceChars spacedText = 2"
    by code_simp+
  have c2: "length symbolText = 22" "alphanumericChars symbolText = 6"
    "meaningfulChars symbolText = 16" "nonWhitespaceChars symbolText = 22"
    by code_simp+
  have "extractFromPDF (parsesTo spacedText) (oneFile ''upload.pdf'' ''%PDF-1.4'') ''upload.pdf''
     = extractFromScannedPDF ''upload.pdf''"
    by (subst extractFromPDF_parsed [where dataBuffer = "''%PDF-1.4''"
          and data = "\<lparr>numpages = 1, pdfText = spacedText\<rparr>"])
       (simp_all add: oneFile_def parsesTo_def t1 c1)
  moreover have "extractFromPDF (parsesTo symbolText) (oneFile ''upload.pdf'' ''%PDF-1.4'') ''upload.pdf''
     = Inr symbolText"
    by (subst extractFromPDF_parsed [where dataBuffer = "''%PDF-1.4''"
          and data = "\<lparr>numpages = 1, pdfText = symbolText\<rparr>"])
       (simp_all add: oneFile_def parsesTo_def t2 c2)
  moreover have "specMeaningful spacedText"
    by (simp add: specMeaningful_def t1 c1 quotientAbove_iff)
  moreover have "\<not> specMeaningful symbolText"
    by (simp add: specMeaningful_def t2 c2 quotientAbove_iff)
  ultimately show ?thesis by simp
qed

section \<open>Properties of the chat service\<close>

text \<open>
  C4. If the load of the documents throws, or documents are found and the gateway throws,
  \<open>processQuery\<close> returns normally, with the fixed message, the type \<open>error\<close>, the
  confidence 0.1 and the message of the error.
\<close>

theorem processQuery_degrades:
  assumes "store = Inl e
           \<or> (store = Inr docs \<and> docs \<noteq> []
              \<and> chatQuery query (map summarise (recentDocuments docs)) = Inl e)"
  shows "processQuery chatQuery selectedProvider store startTime endTime query
           = Inr \<lparr>content = errorMessage, confidence = 1 / 10, resultType = ''error'',
                  metadata = None, error = Some (message e)\<rparr>"
proof -
  have "recentDocuments docs \<noteq> []" if "docs \<noteq> []"
    using that by (cases docs) (auto simp: recentDocuments_def simp flip: length_0_conv)
  with assms show ?thesis
    by (auto simp: processQuery_def answerQuery_def Let_def)
qed

text \<open>
  The theorem at a gateway that throws and at a collection that throws.
\<close>

theorem processQuery_degrades_witness:
  "processQuery failingGateway ''MockProvider'' (Inr [exampleDocument]) 5 9 ''What is my name?''
     = Inr \<lparr>content = errorMessage, confidence = 1 / 10, resultType = ''error'',
            metadata = None, error = Some ''Google API key not provided''\<rparr>
   \<and> processQuery echoGateway ''MockProvider'' (Inl (newError ''connection lost'')) 5 9 ''What is my name?''
     = Inr \<lparr>content = errorMessage, confidence = 1 / 10, resultType = ''error'',
            metadata = None, error = Some ''connection lost''\<rparr>"
proof -
  have a: "Inr [exampleDocument] = (Inr [exampleDocument] :: jsError + formData list)
        \<and> [exampleDocument] \<noteq> []
        \<and> failingGateway ''What is my name?'' (map summarise (recentDocuments [exampleDocument]))
            = Inl (newError ''Google API key not provided'')"
    by (simp add: failingGateway_def)
  have "processQuery failingGateway ''MockProvider'' (Inr [exampleDocument]) 5 9 ''What is my name?''
     = Inr \<lparr>content = errorMessage, confidence = 1 / 10, resultType = ''error'',
            metadata = None, error = Some (message (newError ''Google API key not provided''))\<rparr>"
    using a by (intro processQuery_degrades) blast
  moreover have "processQuery echoGateway ''MockProvider'' (Inl (newError ''connection lost'')) 5 9 ''What is my name?''
     = Inr \<lparr>content = errorMessage, confidence = 1 / 10, resultType = ''error'',
            metadata = None, error = Some (message (newError ''connection lost''))\<rparr>"
    by (intro processQuery_degrades [where docs = "[]"]) simp
  ultimately show ?thesis by (simp add: newError_def)
qed

text \<open>
  \<open>processQuery\<close> returns a result on every input.
\<close>

lemma processQuery_resolves:
  "\<exists>r. processQuery chatQuery selectedProvider store startTime endTime query = Inr r"
  by (simp add: processQuery_def split: sum.splits)

text \<open>
  C10. A result has one of the three types; it has the field \<open>metadata\<close> exactly when its
  type is \<open>ai_response\<close>; it has the field \<open>error\<close> exactly when its type is \<open>error\<close>, and
  then the field is the message of the error that was caught.
\<close>

theorem processQuery_result_shape:
  assumes "processQuery chatQuery selectedProvider store startTime endTime query = Inr r"
  shows "(resultType r = ''ai_response'' \<or> resultType r = ''no_documents'' \<or> resultType r = ''error'')
       \<and> ((metadata r \<noteq> None) = (resultType r = ''ai_response''))
       \<and> ((error r \<noteq> None) = (resultType r = ''error''))
       \<and> (resultType r = ''error'' \<longrightarrow>
            (\<exists>e. answerQuery chatQuery selectedProvider store startTime endTime query = Inl e
                 \<and> error r = Some (message e)))"
  using assms
  by (auto simp: processQuery_def answerQuery_def Let_def split: sum.splits if_splits)

text \<open>
  The theorem at one input for each type of result.
\<close>

theorem processQuery_result_shape_witness:
  "processQuery echoGateway ''MockProvider'' (Inr [exampleDocument]) 5 9 ''What is my name?''
     = Inr \<lparr>content = ''What is my name?'', confidence = 9 / 10, resultType = ''ai_response'',
            metadata = Some \<lparr>documentsUsed = 1, aiProvider = ''MockProvider'',
                             processingTime = 4\<rparr>,
            error = None\<rparr>
   \<and> processQuery echoGateway ''MockProvider'' (Inr []) 5 9 ''What is my name?''
     = Inr \<lparr>content = noDocumentsMessage, confidence = 9 / 10, resultType = ''no_documents'',
            metadata = None, error = None\<rparr>
   \<and> answerQuery failingGateway ''MockProvider'' (Inr [exampleDocument]) 5 9 ''What is my name?''
     = Inl (newError ''Google API key not provided'')
   \<and> processQuery failingGateway ''MockProvider'' (Inr [exampleDocument]) 5 9 ''What is my name?''
     = Inr \<lparr>content = errorMessage, confidence = 1 / 10, resultType = ''error'',
            metadata = None, error = Some ''Google API key not provided''\<rparr>"
proof -
  have a: "processQuery echoGateway ''MockProvider'' (Inr [exampleDocument]) 5 9 ''What is my name?''
     = Inr \<lparr>content = ''What is my name?'', confidence = 9 / 10, resultType = ''ai_response'',
            metadata = Some \<lparr>documentsUsed = 1, aiProvider = ''MockProvider'',
                             processingTime = 4\<rparr>,
            error = None\<rparr>"
    by (simp add: processQuery_def answerQuery_def recentDocuments_def echoGateway_def)
  have b: "processQuery echoGateway ''MockProvider'' (Inr []) 5 9 ''What is my name?''
     = Inr \<lparr>content = noDocumentsMessage, confidence = 9 / 10, resultType = ''no_documents'',
            metadata = None, error = None\<rparr>"
    by (simp add: processQuery_def answerQuery_def recentDocuments_def)
  have c: "answerQuery failingGateway ''MockProvider'' (Inr [exampleDocument]) 5 9 ''What is my name?''
     = Inl (newError ''Google API key not provided'')"
    by (simp add: answerQuery_def recentDocuments_def failingGateway_def)
  have d: "processQuery failingGateway ''MockProvider'' (Inr [exampleDocument]) 5 9 ''What is my name?''
     = Inr \<lparr>content = errorMessage, confidence = 1 / 10, resultType = ''error'',
            metadata = None, error = Some ''Google API key not provided''\<rparr>"
    by (simp add: processQuery_def c newError_def)
  from processQuery_result_shape [OF a] processQuery_result_shape [OF b]
    processQuery_result_shape [OF d] a b c d
  show ?thesis by simp
qed

section \<open>Properties of the mock provider\<close>

lemma maxRun_le: "maxRun cls hi s \<le> length s"
proof -
  have "length (takeWhile cls s) \<le> length s"
    by (rule length_takeWhile_le)
  then show ?thesis
    by (auto simp: maxRun_def Let_def min_def split: option.splits)
qed

lemma tryCounts_bounds:
  assumes "tryCounts rest lo n s = Some m"
    and "n \<le> length s"
    and "\<And>s' k. rest s' = Some k \<Longrightarrow> r \<le> k \<and> k \<le> length s'"
  shows "lo + r \<le> m \<and> m \<le> length s"
  using assms(1,2)
proof (induction n)
  case 0
  with assms(3) [of s m] show ?case
    by (auto split: if_splits)
next
  case (Suc n)
  show ?case
  proof (cases "rest (drop (Suc n) s)")
    case None
    with Suc show ?thesis
      by (auto split: if_splits)
  next
    case (Some k)
    with Suc.prems have m: "m = Suc n + k" and lo: "lo \<le> Suc n"
      by (auto split: if_splits)
    from assms(3) [OF Some] have "r \<le> k" and "k \<le> length s - Suc n"
      by simp_all
    with m lo Suc.prems(2) show ?thesis
      by simp
  qed
qed

lemma matchSeq_bounds:
  "matchSeq as s = Some m \<Longrightarrow> sum_list (map minCount as) \<le> m \<and> m \<le> length s"
proof (induction as arbitrary: s m)
  case Nil
  then show ?case by simp
next
  case (Cons a as)
  obtain cls lo hi where a: "a = Atom cls lo hi"
    by (cases a)
  from Cons.prems a have "tryCounts (matchSeq as) lo (maxRun cls hi s) s = Some m"
    by simp
  from tryCounts_bounds [OF this maxRun_le, of "sum_list (map minCount as)"] Cons.IH
  show ?case
    by (simp add: a)
qed

lemma matchAlternatives_bounds:
  "matchAlternatives re s = Some n \<Longrightarrow> \<forall>alt \<in> set re. 1 \<le> sum_list (map minCount alt)
     \<Longrightarrow> 1 \<le> n \<and> n \<le> length s"
proof (induction re)
  case Nil
  then show ?case by simp
next
  case (Cons alt re)
  show ?case
  proof (cases "matchSeq alt s")
    case None
    with Cons show ?thesis by simp
  next
    case (Some k)
    with Cons.prems have "k = n" by simp
    with matchSeq_bounds [OF Some] Cons.prems(2) show ?thesis
      by fastforce
  qed
qed

lemma regexMatch_nonempty:
  assumes "\<forall>alt \<in> set re. 1 \<le> sum_list (map minCount alt)"
  shows "regexMatch re s = Some m \<Longrightarrow> m \<noteq> []"
proof (induction s)
  case Nil
  then show ?case
    using matchAlternatives_bounds [OF _ assms, of "[]"]
    by (auto split: option.splits)
next
  case (Cons c cs)
  then show ?case
    using matchAlternatives_bounds [OF _ assms, of "c # cs"]
    by (auto split: option.splits)
qed

lemma regexPair_nonempty:
  assumes "\<forall>alt \<in> set re. 1 \<le> sum_list (map minCount alt)"
    and "p \<in> set (regexPair name re line)"
  shows "key p = name \<and> (\<exists>v. val p = JString v \<and> v \<noteq> [])"
  using assms(2) regexMatch_nonempty [OF assms(1), of line]
  by (auto simp: regexPair_def split: option.splits)

lemma regexes_consume:
  "\<forall>alt \<in> set emailRegex. 1 \<le> sum_list (map minCount alt)"
  "\<forall>alt \<in> set phoneRegex. 1 \<le> sum_list (map minCount alt)"
  "\<forall>alt \<in> set dateRegex. 1 \<le> sum_list (map minCount alt)"
  "\<forall>alt \<in> set amountRegex. 1 \<le> sum_list (map minCount alt)"
  by (simp_all add: emailRegex_def phoneRegex_def dateRegex_def amountRegex_def
      one_def optional_def)

lemma colonPair_nonempty:
  assumes "p \<in> set (colonPair line)"
  shows "key p \<noteq> [] \<and> (\<exists>v. val p = JString v \<and> v \<noteq> [])
         \<and> (\<exists>k valueParts. splitOn (CHR '':'') line = k # valueParts \<and> key p = trim k
               \<and> val p = JString (trim (joinWith '':'' valueParts)))"
proof (cases "splitOn (CHR '':'') line")
  case Nil
  then have "colonPair line = []"
    by (simp add: colonPair_def)
  with assms show ?thesis by simp
next
  case (Cons k valueParts)
  let ?v = "trim (joinWith '':'' valueParts)"
  have "colonPair line = [\<lparr>key = trim k, val = JString ?v\<rparr>] \<and> trim k \<noteq> [] \<and> ?v \<noteq> []"
  proof (rule ccontr)
    assume "\<not> ?thesis"
    then have "colonPair line = []"
      by (auto simp: colonPair_def Cons truthy_def Let_def)
    with assms show False by simp
  qed
  with assms Cons show ?thesis by simp
qed

lemma linePairs_cases:
  assumes "p \<in> set (linePairs line)"
  shows "key p \<noteq> [] \<and> (\<exists>v. val p = JString v \<and> v \<noteq> [])
         \<and> (p \<in> set (colonPair line) \<or> key p \<in> {''Email'', ''Phone'', ''Date'', ''Amount''})"
proof -
  from assms consider "p \<in> set (colonPair line)"
    | "p \<in> set (regexPair ''Email'' emailRegex line)"
    | "p \<in> set (regexPair ''Phone'' phoneRegex line)"
    | "p \<in> set (regexPair ''Date'' dateRegex line)"
    | "p \<in> set (regexPair ''Amount'' amountRegex line)"
    by (auto simp: linePairs_def)
  then show ?thesis
  proof cases
    case 1
    with colonPair_nonempty [OF 1] show ?thesis by blast
  next
    case 2
    from regexPair_nonempty [OF regexes_consume(1) 2] show ?thesis by simp
  next
    case 3
    from regexPair_nonempty [OF regexes_consume(2) 3] show ?thesis by simp
  next
    case 4
    from regexPair_nonempty [OF regexes_consume(3) 4] show ?thesis by simp
  next
    case 5
    from regexPair_nonempty [OF regexes_consume(4) 5] show ?thesis by simp
  qed
qed

lemma set_uniquePairs_subset: "set (uniquePairs xs) \<subseteq> set xs"
proof -
  have "set (uniquePairs xs) \<subseteq> snd ` set (enumerate 0 xs)"
    by (auto simp: uniquePairs_def)
  also have "\<dots> = set xs"
    by (metis list.set_map map_snd_enumerate)
  finally show ?thesis .
qed

lemma extractKeyValuePairs_from_line:
  assumes "p \<in> set (extractKeyValuePairs t)"
  shows "\<exists>line \<in> set (textLines t). p \<in> set (linePairs line)"
proof -
  from assms have "p \<in> set (uniquePairs (candidatePairs t))"
    unfolding extractKeyValuePairs_def by (rule in_set_takeD)
  with set_uniquePairs_subset have "p \<in> set (candidatePairs t)"
    by blast
  then show ?thesis
    by (auto simp: candidatePairs_def)
qed

text \<open>
  C9. Every pair returned by the mock provider has a non-empty key and a non-empty string
  as its value, so it is not a pair that the index skips as empty. It is the pair of the
  text before the first colon of a line and the text after it, both trimmed and not
  empty, or its key is one of \<open>Email\<close>, \<open>Phone\<close>, \<open>Date\<close>, \<open>Amount\<close>.
\<close>

theorem extractKeyValuePairs_nonempty:
  assumes "p \<in> set (extractKeyValuePairs t)"
  shows "key p \<noteq> [] \<and> (\<exists>v. val p = JString v \<and> v \<noteq> []) \<and> \<not> isEmptyValue (val p)
         \<and> ((\<exists>line \<in> set (textLines t). p \<in> set (colonPair line))
              \<or> key p \<in> {''Email'', ''Phone'', ''Date'', ''Amount''})"
proof -
  from extractKeyValuePairs_from_line [OF assms]
  obtain line where line: "line \<in> set (textLines t)" "p \<in> set (linePairs line)"
    by blast
  from linePairs_cases [OF line(2)] obtain v where
    k: "key p \<noteq> []" and v: "val p = JString v" "v \<noteq> []"
    and c: "p \<in> set (colonPair line) \<or> key p \<in> {''Email'', ''Phone'', ''Date'', ''Amount''}"
    by blast
  from v have "\<not> isEmptyValue (val p)"
    by (simp add: isEmptyValue_def)
  with k v c line(1) show ?thesis by blast
qed

text \<open>
  The theorem at the text \<open>Name: John Doe\<close>, \<open>Email: john@example.com\<close> on two lines:
  the colon pair and the match of the e-mail address on the second line are the same
  pair, returned once.
\<close>

theorem extractKeyValuePairs_nonempty_witness:
  "extractKeyValuePairs exampleText
     = [\<lparr>key = ''Name'', val = JString ''John Doe''\<rparr>,
        \<lparr>key = ''Email'', val = JString ''john@example.com''\<rparr>]
   \<and> \<not> isEmptyValue (JString ''John Doe'') \<and> \<not> isEmptyValue (JString ''john@example.com'')"
proof -
  have h: "extractKeyValuePairs exampleText
     = [\<lparr>key = ''Name'', val = JString ''John Doe''\<rparr>,
        \<lparr>key = ''Email'', val = JString ''john@example.com''\<rparr>]"
    by code_simp
  have 1: "\<lparr>key = ''Name'', val = JString ''John Doe''\<rparr> \<in> set (extractKeyValuePairs exampleText)"
    and 2: "\<lparr>key = ''Email'', val = JString ''john@example.com''\<rparr>
              \<in> set (extractKeyValuePairs exampleText)"
    by (simp_all add: h)
  from extractKeyValuePairs_nonempty [OF 1] extractKeyValuePairs_nonempty [OF 2] h
  show ?thesis by simp
qed

lemma findIndex_negative: "(findIndex P xs < 0) = (\<forall>y \<in> set xs. \<not> P y)"
  and findIndex_lower: "- 1 \<le> findIndex P xs"
  by (induction xs) (auto simp: Let_def)

lemma findIndex_range:
  "\<exists>y \<in> set xs. P y \<Longrightarrow> 0 \<le> findIndex P xs \<and> findIndex P xs < int (length xs)"
  by (induction xs) (auto simp: Let_def findIndex_negative)

lemma findIndex_append:
  "findIndex P (xs @ ys) =
     (if \<exists>y \<in> set xs. P y then findIndex P xs
      else if findIndex P ys < 0 then - 1 else int (length xs) + findIndex P ys)"
proof (induction xs)
  case Nil
  then show ?case
    using findIndex_lower [of P ys] by simp
next
  case (Cons a xs)
  show ?case
  proof (cases "P a")
    case True
    then show ?thesis by simp
  next
    case False
    show ?thesis
    proof (cases "\<exists>y \<in> set xs. P y")
      case True
      with findIndex_range [OF True] False Cons.IH show ?thesis
        by (simp add: Let_def)
    next
      case none: False
      with False Cons.IH findIndex_lower [of P ys] show ?thesis
        by (simp add: Let_def)
    qed
  qed
qed

lemma same_pair: "(key q = key p \<and> val q = val p) = (q = (p :: kvPair))"
  by auto

lemma uniquePairs_snoc:
  "uniquePairs (xs @ [x]) = uniquePairs xs @ (if x \<in> set xs then [] else [x])"
proof -
  let ?keep = "\<lambda>self. \<lambda>(index, pair). int index = findIndex (\<lambda>p. p = pair) self"
  have old: "filter (?keep (xs @ [x])) (enumerate 0 xs) = filter (?keep xs) (enumerate 0 xs)"
  proof (rule filter_cong [OF refl])
    fix ip assume "ip \<in> set (enumerate 0 xs)"
    then have "fst ip < length xs" and "xs ! fst ip = snd ip"
      by (simp_all add: in_set_enumerate_eq)
    then have "snd ip \<in> set xs"
      by (metis nth_mem)
    then have "findIndex (\<lambda>p. p = snd ip) (xs @ [x]) = findIndex (\<lambda>p. p = snd ip) xs"
      by (auto simp: findIndex_append)
    then show "?keep (xs @ [x]) ip = ?keep xs ip"
      by (simp add: case_prod_unfold)
  qed
  have new: "(int (length xs) = findIndex (\<lambda>p. p = x) (xs @ [x])) = (x \<notin> set xs)"
    using findIndex_range [of xs "\<lambda>p. p = x"] by (auto simp: findIndex_append)
  have "uniquePairs (xs @ [x])
      = map snd (filter (?keep (xs @ [x])) (enumerate 0 xs @ [(length xs, x)]))"
    by (simp add: uniquePairs_def same_pair enumerate_append_eq)
  also have "\<dots> = map snd (filter (?keep xs) (enumerate 0 xs))
                    @ (if x \<in> set xs then [] else [x])"
    using new by (simp add: old)
  finally show ?thesis
    by (simp add: uniquePairs_def same_pair)
qed

lemma uniquePairs_first_occurrences: "uniquePairs xs = rev (remdups (rev xs))"
proof (induction xs rule: rev_induct)
  case Nil
  then show ?case by (simp add: uniquePairs_def)
next
  case (snoc x xs)
  then show ?case by (simp add: uniquePairs_snoc)
qed

text \<open>
  C6, amended. The result is the first 20 of the distinct candidate pairs, in the order in
  which they are first seen: its length is the smaller of 20 and the number of distinct
  candidates (so exactly 20 when more than 20 distinct pairs are found), and never more
  than 20.
\<close>

theorem extractKeyValuePairs_cap:
  "extractKeyValuePairs t = take 20 (rev (remdups (rev (candidatePairs t))))
   \<and> distinct (extractKeyValuePairs t)
   \<and> length (extractKeyValuePairs t) = min 20 (card (set (candidatePairs t)))
   \<and> length (extractKeyValuePairs t) \<le> 20"
proof -
  have eq: "extractKeyValuePairs t = take 20 (rev (remdups (rev (candidatePairs t))))"
    by (simp add: extractKeyValuePairs_def uniquePairs_first_occurrences)
  have "length (rev (remdups (rev (candidatePairs t)))) = card (set (candidatePairs t))"
    using length_remdups_card_conv [of "rev (candidatePairs t)"] by simp
  then have len: "length (extractKeyValuePairs t) = min 20 (card (set (candidatePairs t)))"
    unfolding eq by (simp add: min.commute)
  have "distinct (extractKeyValuePairs t)"
    unfolding eq by (rule distinct_take) simp
  with eq len show ?thesis by simp
qed

text \<open>
  C6, counterexample. Twenty-one lines \<open>a:b\<close> yield 21 candidate pairs, all equal: one
  pair is returned, not 20.
\<close>

theorem extractKeyValuePairs_cap_counterexample:
  "length (candidatePairs repeatedLines) > 20 \<and> length (extractKeyValuePairs repeatedLines) \<noteq> 20"
proof -
  have line: "linePairs ''a:b'' = [\<lparr>key = ''a'', val = JString ''b''\<rparr>]"
    by code_simp
  have keep: "truthy (trim ''a:b'')" and drop: "\<not> truthy (trim [])"
    by code_simp+
  have parts: "splitOn (CHR 0x0A) (concat (replicate n (''a:b'' @ [CHR 0x0A])))
                 = replicate n ''a:b'' @ [[]]" for n
    by (induction n) simp_all
  have "textLines repeatedLines
          = filter (\<lambda>line. truthy (trim line)) (replicate 21 ''a:b'' @ [[]])"
    unfolding textLines_def repeatedLines_def parts ..
  also have "\<dots> = replicate 21 ''a:b''"
    using keep drop by (simp only: filter_append filter_replicate filter.simps if_True if_False
        append_Nil2)
  finally have "candidatePairs repeatedLines = replicate 21 \<lparr>key = ''a'', val = JString ''b''\<rparr>"
    by (simp add: candidatePairs_def line map_replicate_const)
  moreover have "remdups (replicate (Suc n) x) = [x]" for n and x :: kvPair
    by (induction n) simp_all
  from this [of 20] have "remdups (replicate 21 \<lparr>key = ''a'', val = JString ''b''\<rparr>)
                            = [\<lparr>key = ''a'', val = JString ''b''\<rparr>]"
    by simp
  ultimately have "length (candidatePairs repeatedLines) = 21"
    and "extractKeyValuePairs repeatedLines = [\<lparr>key = ''a'', val = JString ''b''\<rparr>]"
    by (simp_all add: extractKeyValuePairs_def uniquePairs_first_occurrences)
  then show ?thesis by simp
qed

end
